theory Spec2Isabelle
  imports Main
begin

section \<open>PyCellID table merging: the data model\<close>

text \<open>
  The module \<^verbatim>\<open>pycellid/io.py\<close> reads the tables written by CellID, attaches a position and
  a unique cell identifier to every row, splits the fluorescence measurements by channel
  and concatenates the per-file tables. The functions below follow it line by line; the
  pandas, numpy and \<^verbatim>\<open>re\<close> operations it calls are written out as list functions.

  Strings are \<^typ>\<open>string\<close>, read as ASCII text: a byte above 127 is carried along
  and belongs to no character class.
\<close>

subsection \<open>Cells, tables and exceptions\<close>

text \<open>
  A Python \<^verbatim>\<open>float\<close> (IEEE binary64): \<open>Finite m e\<close> is the number \<open>m * 2 ^ e\<close>; the
  representation is not normalised, so floats are compared by value.
\<close>

datatype pyfloat = Finite int int | PosInf | NegInf | NaN

text \<open>
  A cell of a table is a Python integer, a float or a string. pandas writes a missing
  value as the float NaN.
\<close>

datatype cell = IntC int | FloatC pyfloat | StrC string

text \<open>
  A \<^verbatim>\<open>pandas.DataFrame\<close> with its default row index: the column labels in order, and the
  rows, each holding one cell per column.
\<close>

record dataframe =
  columns :: "string list"
  rows :: "cell list list"

text \<open>
  The exceptions the module raises or lets through. \<open>KeyError\<close> carries the missing key (a
  column label or a flag), \<open>ValueError_not_encoding\<close> the flag and the metadata table its
  message prints, \<open>FileNotFoundError\<close> and \<open>FileExistsError\<close> their message.
\<close>

datatype error =
    KeyError cell
  | IndexError
  | TypeError
  | OverflowError
  | ValueError string
  | ValueError_not_encoding cell dataframe
  | FileNotFoundError string
  | FileExistsError string
  | InvalidIndexError
  | StopIteration


text \<open>An exception raised by a step ends the computation: the steps are chained by \<open>ebind\<close>.\<close>

definition ebind :: "error + 'a \<Rightarrow> ('a \<Rightarrow> error + 'b) \<Rightarrow> error + 'b" where
  "ebind x f = (case x of Inl e \<Rightarrow> Inl e | Inr v \<Rightarrow> f v)"

text \<open>A list comprehension whose body may raise: the first exception, from the left.\<close>

fun traverse :: "('a \<Rightarrow> error + 'b) \<Rightarrow> 'a list \<Rightarrow> error + 'b list" where
  "traverse f [] = Inr []"
| "traverse f (x # xs) =
     (case f x of
        Inl e \<Rightarrow> Inl e
      | Inr y \<Rightarrow> (case traverse f xs of Inl e \<Rightarrow> Inl e | Inr ys \<Rightarrow> Inr (y # ys)))"

subsection \<open>Binary64 arithmetic\<close>

text \<open>The number of bits of a positive integer (\<^verbatim>\<open>int.bit_length\<close>).\<close>

function bitlen :: "int \<Rightarrow> nat" where
  "bitlen n = (if n \<le> 0 then 0 else Suc (bitlen (n div 2)))"
  by pat_completeness auto
termination
  by (relation "measure nat") auto

declare bitlen.simps [simp del]

text \<open>For \<open>a, b > 0\<close>: the integer \<open>l\<close> with \<open>2 ^ l \<le> a / b < 2 ^ (l + 1)\<close>.\<close>

definition floor_log2 :: "int \<Rightarrow> int \<Rightarrow> int" where
  "floor_log2 a b =
     (let k = int (bitlen a) - int (bitlen b)
      in if (if 0 \<le> k then b * 2 ^ nat k \<le> a else b \<le> a * 2 ^ nat (- k)) then k else k - 1)"

text \<open>
  The binary64 number nearest to the rational \<open>a / b \<ge> 0\<close> (\<open>b > 0\<close>), ties to the even
  significand: 53 significant bits, exponent of the last bit at least \<open>-1074\<close>
  (subnormals), infinity from \<open>2 ^ 1024\<close> on.
\<close>

definition round_binary64 :: "int \<Rightarrow> int \<Rightarrow> pyfloat" where
  "round_binary64 a b =
     (if a = 0 then Finite 0 0
      else
        let e = max (floor_log2 a b - 52) (- 1074);
            n = (if 0 \<le> e then a else a * 2 ^ nat (- e));
            d = (if 0 \<le> e then b * 2 ^ nat e else b);
            q = n div d;
            r = n mod d;
            m = (if d < 2 * r \<or> (2 * r = d \<and> odd q) then q + 1 else q)
        in if 971 < e \<or> (e = 971 \<and> 2 ^ 53 \<le> m) then PosInf else Finite m e)"

definition float_neg :: "pyfloat \<Rightarrow> pyfloat" where
  "float_neg x =
     (case x of Finite m e \<Rightarrow> Finite (- m) e | PosInf \<Rightarrow> NegInf | NegInf \<Rightarrow> PosInf
      | NaN \<Rightarrow> NaN)"

text \<open>The float nearest to \<open>m * 2 ^ e\<close>.\<close>

definition round_scaled :: "int \<Rightarrow> int \<Rightarrow> pyfloat" where
  "round_scaled m e =
     (let a = \<bar>m\<bar>;
          x = (if 0 \<le> e then round_binary64 (a * 2 ^ nat e) 1
               else round_binary64 a (2 ^ nat (- e)))
      in if m < 0 then float_neg x else x)"

text \<open>
  \<^verbatim>\<open>float(i)\<close> for a Python integer, also the conversion of the integer operand of
  \<^verbatim>\<open>i * x\<close> and \<^verbatim>\<open>i + x\<close>: an integer too large for a float raises \<^verbatim>\<open>OverflowError\<close>.
\<close>

definition float_of_int :: "int \<Rightarrow> error + pyfloat" where
  "float_of_int i =
     (case round_scaled i 0 of Finite m e \<Rightarrow> Inr (Finite m e) | _ \<Rightarrow> Inl OverflowError)"

definition float_sign :: "pyfloat \<Rightarrow> int" where
  "float_sign x =
     (case x of Finite m e \<Rightarrow> sgn m | PosInf \<Rightarrow> 1 | NegInf \<Rightarrow> - 1 | NaN \<Rightarrow> 0)"

text \<open>\<^verbatim>\<open>x * y\<close> on floats.\<close>

definition float_mul :: "pyfloat \<Rightarrow> pyfloat \<Rightarrow> pyfloat" where
  "float_mul x y =
     (case (x, y) of
        (Finite m1 e1, Finite m2 e2) \<Rightarrow> round_scaled (m1 * m2) (e1 + e2)
      | (NaN, _) \<Rightarrow> NaN
      | (_, NaN) \<Rightarrow> NaN
      | _ \<Rightarrow> (let s = float_sign x * float_sign y
              in if s = 0 then NaN else if 0 < s then PosInf else NegInf))"

text \<open>\<^verbatim>\<open>x + y\<close> on floats.\<close>

definition float_add :: "pyfloat \<Rightarrow> pyfloat \<Rightarrow> pyfloat" where
  "float_add x y =
     (case (x, y) of
        (Finite m1 e1, Finite m2 e2) \<Rightarrow>
          (let e = min e1 e2
           in round_scaled (m1 * 2 ^ nat (e1 - e) + m2 * 2 ^ nat (e2 - e)) e)
      | (NaN, _) \<Rightarrow> NaN
      | (_, NaN) \<Rightarrow> NaN
      | (PosInf, NegInf) \<Rightarrow> NaN
      | (NegInf, PosInf) \<Rightarrow> NaN
      | (Finite _ _, _) \<Rightarrow> y
      | _ \<Rightarrow> x)"

text \<open>\<^verbatim>\<open>int(x)\<close> for a float: truncation towards zero.\<close>

definition int_of_float :: "pyfloat \<Rightarrow> error + int" where
  "int_of_float x =
     (case x of
        Finite m e \<Rightarrow>
          Inr (if 0 \<le> e then m * 2 ^ nat e else sgn m * (\<bar>m\<bar> div 2 ^ nat (- e)))
      | NaN \<Rightarrow> Inl (ValueError ''cannot convert float NaN to integer'')
      | _ \<Rightarrow> Inl OverflowError)"

text \<open>Two floats are equal (\<^verbatim>\<open>==\<close>): NaN equals nothing.\<close>

definition float_eq :: "pyfloat \<Rightarrow> pyfloat \<Rightarrow> bool" where
  "float_eq x y =
     (case (x, y) of
        (Finite m1 e1, Finite m2 e2) \<Rightarrow>
          (let e = min e1 e2 in m1 * 2 ^ nat (e1 - e) = m2 * 2 ^ nat (e2 - e))
      | (PosInf, PosInf) \<Rightarrow> True
      | (NegInf, NegInf) \<Rightarrow> True
      | _ \<Rightarrow> False)"

subsection \<open>Python string methods\<close>

text \<open>The ASCII characters for which \<^verbatim>\<open>str.isspace\<close> holds.\<close>

definition isspace :: "char \<Rightarrow> bool" where
  "isspace c \<longleftrightarrow> (of_char c :: nat) \<in> {9, 10, 11, 12, 13, 28, 29, 30, 31, 32}"

text \<open>\<^verbatim>\<open>str.strip()\<close>: leading and trailing whitespace removed.\<close>

definition strip :: "string \<Rightarrow> string" where
  "strip s = rev (dropWhile isspace (rev (dropWhile isspace s)))"

text \<open>
  \<^verbatim>\<open>str.replace(old, new)\<close> for one-character \<open>old\<close> and \<open>new\<close>: a scan from the left
  that substitutes every occurrence.
\<close>

fun replace_char :: "char \<Rightarrow> char \<Rightarrow> string \<Rightarrow> string" where
  "replace_char old new [] = []"
| "replace_char old new (c # cs) =
     (if c = old then new # replace_char old new cs else c # replace_char old new cs)"

text \<open>\<^verbatim>\<open>str.startswith\<close>.\<close>

definition startswith :: "string \<Rightarrow> string \<Rightarrow> bool" where
  "startswith s p \<longleftrightarrow> take (length p) s = p"

text \<open>\<^verbatim>\<open>str.lower()\<close> on ASCII letters.\<close>

definition lower_char :: "char \<Rightarrow> char" where
  "lower_char c =
     (let n = (of_char c :: nat) in if 65 \<le> n \<and> n \<le> 90 then char_of (n + 32) else c)"

definition lower :: "string \<Rightarrow> string" where
  "lower s = map lower_char s"

text \<open>\<^verbatim>\<open>str.split(sep)\<close> for a one-character separator.\<close>

fun split_char :: "char \<Rightarrow> string \<Rightarrow> string list" where
  "split_char sep [] = [[]]"
| "split_char sep (c # cs) =
     (if c = sep then [] # split_char sep cs
      else (case split_char sep cs of [] \<Rightarrow> [[c]] | w # ws \<Rightarrow> (c # w) # ws))"

subsection \<open>\<^verbatim>\<open>float(s)\<close> on a string\<close>

definition is_digit :: "char \<Rightarrow> bool" where
  "is_digit c \<longleftrightarrow> 48 \<le> (of_char c :: nat) \<and> (of_char c :: nat) \<le> 57"

definition digits_val :: "string \<Rightarrow> int" where
  "digits_val ds = foldl (\<lambda>a c. 10 * a + (int (of_char c) - 48)) 0 ds"

text \<open>An optional sign: whether it is a minus, and the rest.\<close>

definition take_sign :: "string \<Rightarrow> bool \<times> string" where
  "take_sign s =
     (case s of
        [] \<Rightarrow> (False, [])
      | c # cs \<Rightarrow>
          if c = CHR ''-'' then (True, cs) else if c = CHR ''+'' then (False, cs) else (False, s))"

text \<open>The exponent part of a float literal: nothing, or \<open>e\<close>, an optional sign and digits.\<close>

definition parse_exponent :: "string \<Rightarrow> int option" where
  "parse_exponent s =
     (case s of
        [] \<Rightarrow> Some 0
      | c # cs \<Rightarrow>
          if c = CHR ''e'' \<or> c = CHR ''E'' then
            (let (neg, ds) = take_sign cs
             in if ds \<noteq> [] \<and> list_all is_digit ds
                then Some (if neg then - digits_val ds else digits_val ds) else None)
          else None)"

text \<open>
  \<^verbatim>\<open>float(s)\<close>: a sign, digits with an optional point (a digit on one side of it at
  least), an optional exponent; the value is the decimal number rounded to the nearest
  float. Any other string raises \<^verbatim>\<open>ValueError\<close>. (Python also reads \<^verbatim>\<open>inf\<close>, \<^verbatim>\<open>nan\<close>,
  surrounding blanks and \<^verbatim>\<open>_\<close> between digits; the position pattern passes strings over
  the digits, \<^verbatim>\<open>.\<close>, \<^verbatim>\<open>e\<close> and \<^verbatim>\<open>-\<close> only.)
\<close>

definition float_of_str :: "string \<Rightarrow> error + pyfloat" where
  "float_of_str s =
     (let (neg, s1) = take_sign s;
          ip = takeWhile is_digit s1;
          s2 = dropWhile is_digit s1;
          (fp, s3) = (case s2 of
                        [] \<Rightarrow> ([], s2)
                      | c # cs \<Rightarrow>
                          if c = CHR ''.'' then (takeWhile is_digit cs, dropWhile is_digit cs)
                          else ([], s2))
      in if ip = [] \<and> fp = [] then Inl (ValueError (''could not convert string to float: '' @ s))
         else
           (case parse_exponent s3 of
              None \<Rightarrow> Inl (ValueError (''could not convert string to float: '' @ s))
            | Some ex \<Rightarrow>
                (let m = digits_val (ip @ fp);
                     d = ex - int (length fp);
                     x = (if 0 \<le> d then round_binary64 (m * 10 ^ nat d) 1
                          else round_binary64 m (10 ^ nat (- d)))
                 in Inr (if neg then float_neg x else x))))"

text \<open>\<^verbatim>\<open>int(float(s))\<close>.\<close>

definition int_float :: "string \<Rightarrow> error + int" where
  "int_float s = ebind (float_of_str s) int_of_float"

subsection \<open>Regular expressions\<close>

text \<open>
  The patterns of the module use character classes, concatenation, alternation and the
  greedy repetitions \<^verbatim>\<open>*\<close>, \<^verbatim>\<open>+\<close>, \<^verbatim>\<open>?\<close> (\<^verbatim>\<open>{,1}\<close>).
\<close>

datatype regex =
    Cls "char \<Rightarrow> bool"
  | Cat regex regex
  | Alt regex regex
  | Opt regex
  | Star regex
  | Plus regex

text \<open>
  The backtracking matcher of \<^verbatim>\<open>re\<close>: \<open>rmatch r s\<close> lists, in the order in which the
  matcher tries them, the rests of \<open>s\<close> after each way of matching \<open>r\<close> at the start of \<open>s\<close>.
  A greedy repetition tries one more round before it tries to stop; each round consumes a
  character at least, so as many rounds as \<open>s\<close> has characters are enough.
\<close>

fun star_iter :: "(string \<Rightarrow> string list) \<Rightarrow> nat \<Rightarrow> string \<Rightarrow> string list" where
  "star_iter f 0 s = [s]"
| "star_iter f (Suc n) s =
     concat (map (star_iter f n) (filter (\<lambda>t. length t < length s) (f s))) @ [s]"

primrec rmatch :: "regex \<Rightarrow> string \<Rightarrow> string list" where
  "rmatch (Cls P) = (\<lambda>s. case s of [] \<Rightarrow> [] | c # cs \<Rightarrow> if P c then [cs] else [])"
| "rmatch (Cat r1 r2) = (\<lambda>s. concat (map (rmatch r2) (rmatch r1 s)))"
| "rmatch (Alt r1 r2) = (\<lambda>s. rmatch r1 s @ rmatch r2 s)"
| "rmatch (Opt r) = (\<lambda>s. rmatch r s @ [s])"
| "rmatch (Star r) = (\<lambda>s. star_iter (rmatch r) (length s) s)"
| "rmatch (Plus r) = (\<lambda>s. concat (map (\<lambda>t. star_iter (rmatch r) (length t) t) (rmatch r s)))"

text \<open>
  A pattern made of two parts, matched at the start of \<open>s\<close>: the text each part matched
  and the rest, for the first way the matcher finds.
\<close>

definition match_here :: "regex \<Rightarrow> regex \<Rightarrow> string \<Rightarrow> (string \<times> string \<times> string) option" where
  "match_here r1 r2 s =
     (case concat (map (\<lambda>s1. map (\<lambda>s2. (take (length s - length s1) s,
                                            take (length s1 - length s2) s1, s2))
                                   (rmatch r2 s1))
                       (rmatch r1 s)) of
        [] \<Rightarrow> None
      | m # _ \<Rightarrow> Some m)"

text \<open>The leftmost match: the start positions are tried from the left.\<close>

fun search :: "regex \<Rightarrow> regex \<Rightarrow> string \<Rightarrow> (string \<times> string \<times> string) option" where
  "search r1 r2 [] = match_here r1 r2 []"
| "search r1 r2 (c # cs) =
     (case match_here r1 r2 (c # cs) of Some m \<Rightarrow> Some m | None \<Rightarrow> search r1 r2 cs)"

definition chr :: "char \<Rightarrow> regex" where
  "chr c = Cls (\<lambda>x. x = c)"

definition is_alpha :: "char \<Rightarrow> bool" where
  "is_alpha c \<longleftrightarrow>
     (let n = (of_char c :: nat) in (65 \<le> n \<and> n \<le> 90) \<or> (97 \<le> n \<and> n \<le> 122))"

text \<open>\<^verbatim>\<open>\w\<close>: a letter, a digit or the underscore.\<close>

definition is_word :: "char \<Rightarrow> bool" where
  "is_word c \<longleftrightarrow> is_alpha c \<or> is_digit c \<or> c = CHR ''_''"

text \<open>\<^verbatim>\<open>POS = r"[p|P][a-zA-Z]*[-|_]*"\<close>: inside brackets \<^verbatim>\<open>|\<close> is a character.\<close>

definition POS :: regex where
  "POS = Cat (Cls (\<lambda>c. c = CHR ''p'' \<or> c = CHR ''|'' \<or> c = CHR ''P''))
          (Cat (Star (Cls is_alpha))
               (Star (Cls (\<lambda>c. c = CHR ''-'' \<or> c = CHR ''|'' \<or> c = CHR ''_''))))"

text \<open>The part of \<^verbatim>\<open>SC_NOTATION\<close> before the offset: \<^verbatim>\<open>-?[\d.]+(?:e-?\d+)+\<close>.\<close>

definition SC_MANTISSA :: regex where
  "SC_MANTISSA =
     Cat (Opt (chr (CHR ''-'')))
       (Cat (Plus (Cls (\<lambda>c. is_digit c \<or> c = CHR ''.'')))
            (Plus (Cat (chr (CHR ''e'')) (Cat (Opt (chr (CHR ''-''))) (Plus (Cls is_digit))))))"

text \<open>The digits of the offset, after its \<^verbatim>\<open>+\<close>: \<^verbatim>\<open>-?\d+\<close>.\<close>

definition SC_OFFSET :: regex where
  "SC_OFFSET = Cat (Opt (chr (CHR ''-''))) (Plus (Cls is_digit))"

text \<open>\<^verbatim>\<open>SC_NOTATION = r"-?[\d.]+(?:e-?\d+)+(?:[+]-?\d+)?"\<close>.\<close>

definition SC_NOTATION :: regex where
  "SC_NOTATION = Cat SC_MANTISSA (Opt (Cat (chr (CHR ''+'')) SC_OFFSET))"

text \<open>
  \<^verbatim>\<open>POSITION_REX = re.compile(fr"{POS}({SC_NOTATION}|\d+)")\<close>, and
  \<^verbatim>\<open>POSITION_REX.findall(path)\<close>: \<open>None\<close> when the list is empty, its first element
  (the text of the group of the leftmost match) otherwise. \<^verbatim>\<open>make_df\<close> looks at nothing
  else of the list.
\<close>

definition POSITION_GROUP :: regex where
  "POSITION_GROUP = Alt SC_NOTATION (Plus (Cls is_digit))"

definition position_findall :: "string \<Rightarrow> string option" where
  "position_findall path = map_option (\<lambda>(_, g, _). g) (search POS POSITION_GROUP path)"

text \<open>
  \<^verbatim>\<open>CHANNEL_REX = re.compile(r"([\w][f|F][\w]{,1})([_|\D][p|P][\D]*)")\<close>, and
  \<^verbatim>\<open>CHANNEL_REX.findall(path)\<close>: \<open>None\<close> when the list is empty, its first element (the
  texts of the two groups of the leftmost match) otherwise.
\<close>

definition CHANNEL_GROUP1 :: regex where
  "CHANNEL_GROUP1 =
     Cat (Cls is_word)
       (Cat (Cls (\<lambda>c. c = CHR ''f'' \<or> c = CHR ''|'' \<or> c = CHR ''F'')) (Opt (Cls is_word)))"

definition CHANNEL_GROUP2 :: regex where
  "CHANNEL_GROUP2 =
     Cat (Cls (\<lambda>c. c = CHR ''_'' \<or> c = CHR ''|'' \<or> \<not> is_digit c))
       (Cat (Cls (\<lambda>c. c = CHR ''p'' \<or> c = CHR ''|'' \<or> c = CHR ''P''))
            (Star (Cls (\<lambda>c. \<not> is_digit c))))"

definition channel_findall :: "string \<Rightarrow> (string \<times> string) option" where
  "channel_findall path =
     map_option (\<lambda>(g1, g2, _). (g1, g2)) (search CHANNEL_GROUP1 CHANNEL_GROUP2 path)"

subsection \<open>Table access\<close>

text \<open>The position of a label among the column labels.\<close>

fun column_index :: "string list \<Rightarrow> string \<Rightarrow> nat option" where
  "column_index [] name = None"
| "column_index (c # cs) name =
     (if c = name then Some 0 else map_option Suc (column_index cs name))"

text \<open>\<^verbatim>\<open>df[name]\<close>: the cells of a column, \<^verbatim>\<open>KeyError\<close> when there is no such column.\<close>

definition get_column :: "dataframe \<Rightarrow> string \<Rightarrow> error + cell list" where
  "get_column df name =
     (case column_index (columns df) name of
        None \<Rightarrow> Inl (KeyError (StrC name))
      | Some i \<Rightarrow> Inr (map (\<lambda>r. r ! i) (rows df)))"

text \<open>
  \<^verbatim>\<open>df[name] = values\<close>: the column is overwritten when it exists and added as the last
  column otherwise; a list of another length than the table raises \<^verbatim>\<open>ValueError\<close>.
\<close>

definition set_column :: "dataframe \<Rightarrow> string \<Rightarrow> cell list \<Rightarrow> error + dataframe" where
  "set_column df name vals =
     (if length vals \<noteq> length (rows df)
      then Inl (ValueError ''Length of values does not match length of index'')
      else
        (case column_index (columns df) name of
           None \<Rightarrow>
             Inr (df\<lparr>columns := columns df @ [name],
                     rows := map (\<lambda>(r, v). r @ [v]) (zip (rows df) vals)\<rparr>)
         | Some i \<Rightarrow> Inr (df\<lparr>rows := map (\<lambda>(r, v). r[i := v]) (zip (rows df) vals)\<rparr>)))"

subsection \<open>Reading a table: \<^verbatim>\<open>read_df\<close>\<close>

text \<open>
  \<^verbatim>\<open>
  df = pd.read_table(path_file)
  df.columns = df.columns.str.strip()
  df.columns = df.columns.str.replace(".", "_", regex=True)
  \<close>
  The argument is the table \<^verbatim>\<open>pd.read_table\<close> returns for the file. The pattern is a single
  character: the pandas 1.x releases the module was written for (it passes a list as
  \<^verbatim>\<open>index\<close> to \<^verbatim>\<open>pivot\<close>, and reads the columns \<^verbatim>\<open>cellID\<close> and \<^verbatim>\<open>flag\<close> by name afterwards)
  hand a one-character pattern to \<^verbatim>\<open>str.replace\<close> even when \<^verbatim>\<open>regex=True\<close>, as the comment
  in the source says (\<^verbatim>\<open>Change name delimiter "." to "_"\<close>).
\<close>

definition read_df :: "dataframe \<Rightarrow> dataframe" where
  "read_df raw =
     (let df = raw;
          df = df\<lparr>columns := map strip (columns df)\<rparr>;
          df = df\<lparr>columns := map (replace_char (CHR ''.'') (CHR ''_'')) (columns df)\<rparr>
      in df)"

subsection \<open>The identifier: \<^verbatim>\<open>_create_ucid\<close>\<close>

text \<open>
  \<^verbatim>\<open>calc + cellid\<close> for one cell of the \<^verbatim>\<open>cellID\<close> column: integer addition on an integer,
  float addition (the integer converted first) on a float, \<^verbatim>\<open>TypeError\<close> on a string.
\<close>

definition add_cell :: "int \<Rightarrow> cell \<Rightarrow> error + cell" where
  "add_cell calc c =
     (case c of
        IntC i \<Rightarrow> Inr (IntC (calc + i))
      | FloatC x \<Rightarrow> ebind (float_of_int calc) (\<lambda>f. Inr (FloatC (float_add f x)))
      | StrC _ \<Rightarrow> Inl TypeError)"

text \<open>
  \<^verbatim>\<open>
  calc = int(pos * 1e11)
  df["ucid"] = [calc + cellid for cellid in df["cellID"]]
  return df
  \<close>
  \<open>pos * 1e11\<close> is a float product: \<open>pos\<close> is converted to a float and the product is
  rounded.
\<close>

definition create_ucid :: "dataframe \<Rightarrow> int \<Rightarrow> error + dataframe" where
  "create_ucid df pos =
     ebind (float_of_int pos) (\<lambda>fpos.
     ebind (int_of_float (float_mul fpos (Finite 100000000000 0))) (\<lambda>calc.
     ebind (get_column df ''cellID'') (\<lambda>cellids.
     ebind (traverse (add_cell calc) cellids) (\<lambda>ucid.
     set_column df ''ucid'' ucid))))"

subsection \<open>Position and identifier of a file: \<^verbatim>\<open>make_df\<close>\<close>

text \<open>
  The position a path encodes, lines 193 to 205 of \<^verbatim>\<open>make_df\<close>:
  \<^verbatim>\<open>
  pos = POSITION_REX.findall(path_file)
  if not pos:
      raise FileNotFoundError(f"{path_file} does not encode valid position")
  if "+" in pos[0]:
      sc_num, num = pos[0].split("+")
      pos = int(float(sc_num)) + int(float(num))
  else:
      pos = int(float(pos[0]))
  \<close>
  Unpacking a list that has not two elements raises \<^verbatim>\<open>ValueError\<close>.
\<close>

definition position_of_path :: "string \<Rightarrow> error + int" where
  "position_of_path path_file =
     (case position_findall path_file of
        None \<Rightarrow> Inl (FileNotFoundError (path_file @ '' does not encode valid position''))
      | Some pos0 \<Rightarrow>
          if CHR ''+'' \<in> set pos0 then
            (case split_char (CHR ''+'') pos0 of
               [sc_num, num] \<Rightarrow>
                 ebind (int_float sc_num) (\<lambda>a. ebind (int_float num) (\<lambda>b. Inr (a + b)))
             | _ \<Rightarrow> Inl (ValueError ''too many values to unpack (expected 2)''))
          else int_float pos0)"

text \<open>
  \<^verbatim>\<open>np.linspace(pos, pos, n, dtype=int)\<close>: \<open>n\<close> copies of \<open>pos\<close>, computed as floats and
  cast to 64-bit integers. The cast of a float outside their range is left open by C and
  by numpy; the value written here, \<open>- 2 ^ 63\<close>, is what x86-64 gives.
\<close>

definition linspace_int :: "int \<Rightarrow> nat \<Rightarrow> error + cell list" where
  "linspace_int pos n =
     ebind (float_of_int pos) (\<lambda>f.
     ebind (int_of_float f) (\<lambda>v.
     Inr (replicate n (IntC (if - (2 ^ 63) \<le> v \<and> v < 2 ^ 63 then v else - (2 ^ 63))))))"

text \<open>
  \<^verbatim>\<open>
  df = read_df(path_file)
  ... (the position, above)
  df = _create_ucid(df, pos)
  df["pos"] = np.linspace(pos, pos, len(df), dtype=int)
  return df
  \<close>
  The second argument is the table \<^verbatim>\<open>pd.read_table\<close> returns for the file at \<open>path_file\<close>.
\<close>

definition make_df :: "string \<Rightarrow> dataframe \<Rightarrow> error + dataframe" where
  "make_df path_file raw =
     (let df = read_df raw
      in ebind (position_of_path path_file) (\<lambda>pos.
         ebind (create_ucid df pos) (\<lambda>df.
         ebind (linspace_int pos (length (rows df))) (\<lambda>ps.
         set_column df ''pos'' ps))))"

subsection \<open>Comparing cells\<close>

text \<open>\<^verbatim>\<open>a == b\<close> on two cells: numbers by value, strings by content; NaN equals nothing.\<close>

definition cell_eq :: "cell \<Rightarrow> cell \<Rightarrow> bool" where
  "cell_eq a b =
     (case (a, b) of
        (IntC i, IntC j) \<Rightarrow> i = j
      | (IntC i, FloatC y) \<Rightarrow> float_eq (Finite i 0) y
      | (FloatC x, IntC j) \<Rightarrow> float_eq x (Finite j 0)
      | (FloatC x, FloatC y) \<Rightarrow> float_eq x y
      | (StrC s, StrC t) \<Rightarrow> s = t
      | _ \<Rightarrow> False)"

text \<open>Two cells are the same group key: equal, or both NaN.\<close>

definition cell_same :: "cell \<Rightarrow> cell \<Rightarrow> bool" where
  "cell_same a b \<longleftrightarrow> cell_eq a b \<or> (a = FloatC NaN \<and> b = FloatC NaN)"

definition key_same :: "cell list \<Rightarrow> cell list \<Rightarrow> bool" where
  "key_same k l \<longleftrightarrow> length k = length l \<and> list_all (\<lambda>(a, b). cell_same a b) (zip k l)"

text \<open>\<^verbatim>\<open>not x\<close> on a cell: the empty string and zero are false.\<close>

definition falsy :: "cell \<Rightarrow> bool" where
  "falsy c =
     (case c of IntC i \<Rightarrow> i = 0 | FloatC (Finite m e) \<Rightarrow> m = 0 | FloatC _ \<Rightarrow> False
      | StrC s \<Rightarrow> s = [])"

text \<open>
  The order in which keys are sorted: numbers by value, then strings by character codes,
  NaN last.
\<close>

definition float_le :: "pyfloat \<Rightarrow> pyfloat \<Rightarrow> bool" where
  "float_le x y =
     (case (x, y) of
        (Finite m1 e1, Finite m2 e2) \<Rightarrow>
          (let e = min e1 e2 in m1 * 2 ^ nat (e1 - e) \<le> m2 * 2 ^ nat (e2 - e))
      | (_, NaN) \<Rightarrow> True
      | (NaN, _) \<Rightarrow> False
      | (NegInf, _) \<Rightarrow> True
      | (_, PosInf) \<Rightarrow> True
      | _ \<Rightarrow> False)"

fun str_le :: "string \<Rightarrow> string \<Rightarrow> bool" where
  "str_le [] t = True"
| "str_le (c # cs) [] = False"
| "str_le (c # cs) (d # ds) =
     ((of_char c :: nat) < of_char d \<or> (c = d \<and> str_le cs ds))"

definition cell_le :: "cell \<Rightarrow> cell \<Rightarrow> bool" where
  "cell_le a b =
     (case (a, b) of
        (StrC s, StrC t) \<Rightarrow> str_le s t
      | (StrC s, FloatC NaN) \<Rightarrow> True
      | (StrC s, _) \<Rightarrow> False
      | (IntC i, IntC j) \<Rightarrow> i \<le> j
      | (IntC i, FloatC y) \<Rightarrow> float_le (Finite i 0) y
      | (FloatC x, IntC j) \<Rightarrow> float_le x (Finite j 0)
      | (FloatC x, FloatC y) \<Rightarrow> float_le x y
      | (_, StrC t) \<Rightarrow> a \<noteq> FloatC NaN)"

fun key_le :: "cell list \<Rightarrow> cell list \<Rightarrow> bool" where
  "key_le [] l = True"
| "key_le (a # k) [] = False"
| "key_le (a # k) (b # l) = (if cell_same a b then key_le k l else cell_le a b)"

fun insert_by :: "('a \<Rightarrow> 'a \<Rightarrow> bool) \<Rightarrow> 'a \<Rightarrow> 'a list \<Rightarrow> 'a list" where
  "insert_by le x [] = [x]"
| "insert_by le x (y # ys) = (if le x y then x # y # ys else y # insert_by le x ys)"

definition sort_by :: "('a \<Rightarrow> 'a \<Rightarrow> bool) \<Rightarrow> 'a list \<Rightarrow> 'a list" where
  "sort_by le xs = foldr (insert_by le) xs []"

text \<open>\<^verbatim>\<open>unique()\<close>: the first occurrence of every value, in order of appearance.\<close>

fun unique_acc :: "('a \<Rightarrow> 'a \<Rightarrow> bool) \<Rightarrow> 'a list \<Rightarrow> 'a list \<Rightarrow> 'a list" where
  "unique_acc same seen [] = []"
| "unique_acc same seen (x # xs) =
     (if list_ex (\<lambda>s. same s x) seen then unique_acc same seen xs
      else x # unique_acc same (seen @ [x]) xs)"

definition unique_by :: "('a \<Rightarrow> 'a \<Rightarrow> bool) \<Rightarrow> 'a list \<Rightarrow> 'a list" where
  "unique_by same xs = unique_acc same [] xs"

subsection \<open>The channel of a flag: \<^verbatim>\<open>_decod_chanel\<close>\<close>

text \<open>
  \<^verbatim>\<open>
  path = df_mapping[df_mapping["flag"] == flag]["fluor"].values[0]
  if not path:
      raise ValueError(f"{flag} is not encoding in {df_mapping}")
  return CHANNEL_REX.findall(path)[0][0].lower()
  \<close>
  The first row of the metadata table with this flag gives the descriptor; no such row
  makes \<^verbatim>\<open>values[0]\<close> raise \<^verbatim>\<open>IndexError\<close>, as does \<^verbatim>\<open>findall(path)[0]\<close> when the pattern
  matches nowhere; \<^verbatim>\<open>findall\<close> raises \<^verbatim>\<open>TypeError\<close> on a descriptor that is not a string.
\<close>

definition decod_chanel :: "dataframe \<Rightarrow> cell \<Rightarrow> error + string" where
  "decod_chanel df_mapping flag =
     ebind (get_column df_mapping ''flag'') (\<lambda>flags.
     ebind (get_column df_mapping ''fluor'') (\<lambda>fluors.
       (case filter (\<lambda>(fg, fl). cell_eq fg flag) (zip flags fluors) of
          [] \<Rightarrow> Inl IndexError
        | (fg, path) # _ \<Rightarrow>
            if falsy path then Inl (ValueError_not_encoding flag df_mapping)
            else
              (case path of
                 StrC p \<Rightarrow>
                   (case channel_findall p of
                      None \<Rightarrow> Inl IndexError
                    | Some (g1, g2) \<Rightarrow> Inr (lower g1))
               | _ \<Rightarrow> Inl TypeError))))"

subsection \<open>pandas operations of the reshaper\<close>

definition col_pos :: "dataframe \<Rightarrow> string \<Rightarrow> error + nat" where
  "col_pos df name =
     (case column_index (columns df) name of
        None \<Rightarrow> Inl (KeyError (StrC name))
      | Some i \<Rightarrow> Inr i)"

text \<open>The cells of a row at the given positions.\<close>

definition pick :: "nat list \<Rightarrow> cell list \<Rightarrow> cell list" where
  "pick js r = map (\<lambda>j. r ! j) js"

text \<open>
  \<^verbatim>\<open>df.pivot(index=index, columns=columns, values=values)\<close>. The columns are looked up
  in the order index, columns, values (\<^verbatim>\<open>KeyError\<close> on a missing one); two rows with the
  same index and the same \<open>columns\<close> cell raise \<^verbatim>\<open>ValueError\<close>. The result has the sorted
  index keys, one column \<open>(v, f)\<close> for every value column \<open>v\<close> and every cell \<open>f\<close> of the
  \<open>columns\<close> column (sorted), and NaN where the table has no row for a key and \<open>f\<close>.
\<close>

definition pivot ::
  "dataframe \<Rightarrow> string list \<Rightarrow> string \<Rightarrow> string list
     \<Rightarrow> error + (cell list list \<times> (string \<times> cell) list \<times> cell list list)" where
  "pivot df index cols vals =
     ebind (traverse (col_pos df) index) (\<lambda>ki.
     ebind (col_pos df cols) (\<lambda>ci.
     ebind (traverse (col_pos df) vals) (\<lambda>vi.
       (let full = map (\<lambda>r. pick ki r @ [r ! ci]) (rows df)
        in if length (unique_by key_same full) \<noteq> length full
           then Inl (ValueError ''Index contains duplicate entries, cannot reshape'')
           else
             (let ks = sort_by key_le (unique_by key_same (map (pick ki) (rows df)));
                  fs = sort_by cell_le (unique_by cell_same (map (\<lambda>r. r ! ci) (rows df)));
                  at = (\<lambda>k f j.
                         case find (\<lambda>r. key_same (pick ki r) k \<and> cell_same (r ! ci) f) (rows df) of
                           None \<Rightarrow> FloatC NaN
                         | Some r \<Rightarrow> r ! j)
              in Inr (ks,
                      concat (map (\<lambda>v. map (\<lambda>f. (v, f)) fs) vals),
                      map (\<lambda>k. concat (map (\<lambda>j. map (\<lambda>f. at k f j) fs) vi)) ks))))))"

text \<open>
  \<^verbatim>\<open>df.set_index(names)\<close>: the keys of the rows, the labels of the other columns and their
  cells.
\<close>

definition set_index ::
  "dataframe \<Rightarrow> string list \<Rightarrow> error + (cell list list \<times> string list \<times> cell list list)" where
  "set_index df names =
     ebind (traverse (col_pos df) names) (\<lambda>ki.
       (let rest = filter (\<lambda>c. c \<notin> set names) (columns df)
        in ebind (traverse (col_pos df) rest) (\<lambda>ri.
             Inr (map (pick ki) (rows df), rest, map (pick ri) (rows df)))))"

text \<open>
  \<^verbatim>\<open>pd.merge(left, right, on=index names, how="outer")\<close> of two tables indexed by the same
  names: the keys of both, sorted; for a key every pairing of its left rows with its right
  rows, NaN standing for the side that lacks the key. (No label of the left table is a
  label of the right one in \<^verbatim>\<open>_make_cols_chan\<close>: those on the right start with \<^verbatim>\<open>f_\<close>.)
\<close>

definition merge_outer ::
  "cell list list \<times> string list \<times> cell list list
     \<Rightarrow> cell list list \<times> string list \<times> cell list list
     \<Rightarrow> cell list list \<times> string list \<times> cell list list" where
  "merge_outer l r =
     (case (l, r) of
        ((lk, lc, lr), (rk, rc, rr)) \<Rightarrow>
          (let ks = sort_by key_le (unique_by key_same (lk @ rk));
               side = (\<lambda>k keys labels cells.
                         case map snd (filter (\<lambda>(k', x). key_same k' k) (zip keys cells)) of
                           [] \<Rightarrow> [replicate (length labels) (FloatC NaN)]
                         | xs \<Rightarrow> xs);
               joined = concat (map (\<lambda>k. concat (map (\<lambda>x. map (\<lambda>y. (k, x @ y)) (side k rk rc rr))
                                                      (side k lk lc lr))) ks)
           in (map fst joined, lc @ rc, map snd joined)))"

text \<open>\<^verbatim>\<open>df.reset_index()\<close>: the index levels become the first columns.\<close>

definition reset_index ::
  "string list \<Rightarrow> cell list list \<times> string list \<times> cell list list \<Rightarrow> dataframe" where
  "reset_index names t =
     (case t of (ks, labels, cells) \<Rightarrow>
        \<lparr>columns = names @ labels, rows = map (\<lambda>(k, x). k @ x) (zip ks cells)\<rparr>)"

text \<open>\<^verbatim>\<open>df[names]\<close> for a list of labels.\<close>

definition select_columns :: "dataframe \<Rightarrow> string list \<Rightarrow> error + dataframe" where
  "select_columns df names =
     ebind (traverse (col_pos df) names) (\<lambda>js.
       Inr \<lparr>columns = names, rows = map (pick js) (rows df)\<rparr>)"

text \<open>\<^verbatim>\<open>df.drop(names, axis=1)\<close>, for labels the table has.\<close>

definition drop_columns :: "dataframe \<Rightarrow> string list \<Rightarrow> dataframe" where
  "drop_columns df names =
     \<lparr>columns = filter (\<lambda>c. c \<notin> set names) (columns df),
      rows = map (\<lambda>r. map snd (filter (\<lambda>(c, v). c \<notin> set names) (zip (columns df) r))) (rows df)\<rparr>"

text \<open>\<^verbatim>\<open>pd.concat([a, b], axis=1)\<close> of two tables with the same rows index.\<close>

definition concat_columns :: "dataframe \<Rightarrow> dataframe \<Rightarrow> dataframe" where
  "concat_columns a b =
     \<lparr>columns = columns a @ columns b, rows = map (\<lambda>(x, y). x @ y) (zip (rows a) (rows b))\<rparr>"

subsection \<open>The reshaper: \<^verbatim>\<open>_make_cols_chan\<close>\<close>

text \<open>
  \<^verbatim>\<open>
  fluor = [f_var for f_var in df.columns if f_var.startswith("f_")]
  df_flag = df.pivot(index=["ucid", "t_frame"], columns="flag", values=fluor)
  chanels = {fg: _decod_chanel(df_map, fg) for fg in df_map["flag"].unique()}
  df_flag.columns = [f"{n[0]}_{chanels[n[1]]}" for n in df_flag.columns]
  morf = [name for name in df.columns if not name.startswith("f_")]
  df_morf = df[df.flag == 0][morf]
  df_morf.set_index(["ucid", "t_frame"], inplace=True)
  df = pd.merge(df_morf, df_flag, on=["ucid", "t_frame"], how="outer")
  df = df.reset_index()
  col = ["pos", "t_frame", "ucid", "cellID"]
  df = pd.concat([df[col], df.drop(col, axis=1)], axis=1)
  return df
  \<close>
  \<open>chanels[n[1]]\<close> raises \<^verbatim>\<open>KeyError\<close> with the flag when the dictionary has no such key.
\<close>

definition make_cols_chan :: "dataframe \<Rightarrow> dataframe \<Rightarrow> error + dataframe" where
  "make_cols_chan df df_map =
     (let fluor = filter (\<lambda>f_var. startswith f_var ''f_'') (columns df)
      in ebind (pivot df [''ucid'', ''t_frame''] ''flag'' fluor) (\<lambda>(ks, pcols, pcells).
         ebind (get_column df_map ''flag'') (\<lambda>flags.
         ebind (traverse (\<lambda>fg. ebind (decod_chanel df_map fg) (\<lambda>ch. Inr (fg, ch)))
                  (unique_by cell_same flags)) (\<lambda>chanels.
         ebind (traverse (\<lambda>(v, f). case find (\<lambda>(fg, ch). cell_eq fg f) chanels of
                                       None \<Rightarrow> Inl (KeyError f)
                                     | Some (fg, ch) \<Rightarrow> Inr (v @ ''_'' @ ch)) pcols) (\<lambda>fcols.
           (let morf = filter (\<lambda>name. \<not> startswith name ''f_'') (columns df)
            in ebind (col_pos df ''flag'') (\<lambda>fi.
               ebind (select_columns (df\<lparr>rows := filter (\<lambda>r. cell_eq (r ! fi) (IntC 0)) (rows df)\<rparr>)
                        morf) (\<lambda>df_morf.
               ebind (set_index df_morf [''ucid'', ''t_frame'']) (\<lambda>df_morf.
                 (let df = reset_index [''ucid'', ''t_frame'']
                             (merge_outer df_morf (ks, fcols, pcells));
                      col = [''pos'', ''t_frame'', ''ucid'', ''cellID'']
                  in ebind (select_columns df col) (\<lambda>front.
                       Inr (concat_columns front (drop_columns df col)))))))))))))"

subsection \<open>The pipeline: \<^verbatim>\<open>merge_tables\<close>\<close>

text \<open>
  \<^verbatim>\<open>pd.concat([a, b], ignore_index=True)\<close>: the rows of \<open>b\<close> under those of \<open>a\<close>; the columns
  are those of \<open>a\<close>, then the new ones of \<open>b\<close>, with NaN where a table lacks a column. With
  differing labels pandas needs them unique within each table (\<^verbatim>\<open>InvalidIndexError\<close>).
\<close>

definition reindex :: "dataframe \<Rightarrow> string list \<Rightarrow> cell list \<Rightarrow> cell list" where
  "reindex df labels r =
     map (\<lambda>c. case column_index (columns df) c of None \<Rightarrow> FloatC NaN | Some i \<Rightarrow> r ! i) labels"

definition pd_concat :: "dataframe \<Rightarrow> dataframe \<Rightarrow> error + dataframe" where
  "pd_concat a b =
     (if columns a = columns b then Inr \<lparr>columns = columns a, rows = rows a @ rows b\<rparr>
      else if \<not> distinct (columns a) \<or> \<not> distinct (columns b)
      then Inl InvalidIndexError
      else
        (let labels = columns a @ filter (\<lambda>c. c \<notin> set (columns a)) (columns b)
         in Inr \<lparr>columns = labels,
                 rows = map (reindex a labels) (rows a) @ map (reindex b labels) (rows b)\<rparr>))"

text \<open>One data file with its metadata file: \<^verbatim>\<open>make_df\<close>, then \<^verbatim>\<open>next(file_mapping)\<close>, then
  \<^verbatim>\<open>_make_cols_chan\<close>. The metadata files left are returned with the table.\<close>

definition per_file ::
  "string \<times> dataframe \<Rightarrow> dataframe list \<Rightarrow> error + (dataframe \<times> dataframe list)" where
  "per_file data_table file_mapping =
     ebind (make_df (fst data_table) (snd data_table)) (\<lambda>df.
       (case file_mapping of
          [] \<Rightarrow> Inl StopIteration
        | m # ms \<Rightarrow> ebind (make_cols_chan df m) (\<lambda>df. Inr (df, ms))))"

text \<open>
  \<^verbatim>\<open>
  for data_table in data_tables:
      df_i = make_df(data_table)
      df_i = _make_cols_chan(df_i, pd.read_table(next(file_mapping)))
      df = pd.concat([df, df_i], ignore_index=True)
  \<close>
\<close>

fun merge_loop ::
  "dataframe \<Rightarrow> (string \<times> dataframe) list \<Rightarrow> dataframe list \<Rightarrow> error + dataframe" where
  "merge_loop df [] file_mapping = Inr df"
| "merge_loop df (data_table # data_tables) file_mapping =
     ebind (per_file data_table file_mapping) (\<lambda>(df_i, file_mapping).
     ebind (pd_concat df df_i) (\<lambda>df.
     merge_loop df data_tables file_mapping))"

text \<open>
  \<^verbatim>\<open>
  if not Path(path).exists():
      raise FileExistsError(f"invalid path: {path}")
  data_tables = (f for f in Path(path).rglob(n_data))
  file_mapping = (f for f in Path(path).rglob(n_mdata))
  table = next(data_tables)
  df = make_df(table)
  df = _make_cols_chan(df, pd.read_table(next(file_mapping)))
  for data_table in data_tables: ...
  return df
  \<close>
  The file system is given by what the function reads of it: whether \<open>path\<close> exists, the
  files the data pattern finds under it (the path of each and the table \<^verbatim>\<open>pd.read_table\<close>
  returns for it) and the tables of the files the metadata pattern finds, both in the
  order of \<^verbatim>\<open>rglob\<close>. \<^verbatim>\<open>next\<close> on an exhausted generator raises \<^verbatim>\<open>StopIteration\<close>. The
  attribute \<^verbatim>\<open>_path\<close> that the function sets on the result is not part of the table.
\<close>

definition merge_tables ::
  "string \<Rightarrow> bool \<Rightarrow> (string \<times> dataframe) list \<Rightarrow> dataframe list \<Rightarrow> error + dataframe" where
  "merge_tables path path_exists data_tables file_mapping =
     (if \<not> path_exists then Inl (FileExistsError (''invalid path: '' @ path))
      else
        (case data_tables of
           [] \<Rightarrow> Inl StopIteration
         | table # data_tables \<Rightarrow>
             ebind (per_file table file_mapping) (\<lambda>(df, file_mapping).
             merge_loop df data_tables file_mapping)))"

subsection \<open>Notions used in the statements\<close>

text \<open>A cell that holds an integer, and the integer it holds.\<close>

definition is_int :: "cell \<Rightarrow> bool" where
  "is_int c = (case c of IntC i \<Rightarrow> True | _ \<Rightarrow> False)"



text \<open>Every row has one cell per column.\<close>

definition rows_ok :: "dataframe \<Rightarrow> bool" where
  "rows_ok df \<longleftrightarrow> (\<forall>r \<in> set (rows df). length r = length (columns df))"

text \<open>No character class of the pattern accepts the character \<open>c\<close>.\<close>

primrec avoids :: "char \<Rightarrow> regex \<Rightarrow> bool" where
  "avoids c (Cls P) \<longleftrightarrow> \<not> P c"
| "avoids c (Cat r1 r2) \<longleftrightarrow> avoids c r1 \<and> avoids c r2"
| "avoids c (Alt r1 r2) \<longleftrightarrow> avoids c r1 \<and> avoids c r2"
| "avoids c (Opt r) \<longleftrightarrow> avoids c r"
| "avoids c (Star r) \<longleftrightarrow> avoids c r"
| "avoids c (Plus r) \<longleftrightarrow> avoids c r"

section \<open>Properties\<close>

subsection \<open>Header normalisation (C3)\<close>







subsection \<open>Products that binary64 holds exactly\<close>














subsection \<open>The identifier and the position of every row (C1)\<close>

lemma column_index_Some:
  "column_index cs name = Some i \<Longrightarrow> i < length cs \<and> cs ! i = name"
  by (induction cs arbitrary: i) (auto split: if_splits)

lemma column_index_None: "column_index cs name = None \<longleftrightarrow> name \<notin> set cs"
  by (induction cs) auto











lemma read_df_rows_ok: "rows_ok raw \<Longrightarrow> rows_ok (read_df raw)"
  by (simp add: rows_ok_def read_df_def)




subsection \<open>The position a path encodes (C4)\<close>

lemma star_iter_avoids:
  assumes f: "\<And>s t. t \<in> set (f s) \<Longrightarrow> \<exists>u. s = u @ t \<and> c \<notin> set u"
  shows "t \<in> set (star_iter f n s) \<Longrightarrow> \<exists>u. s = u @ t \<and> c \<notin> set u"
proof (induction n arbitrary: s t)
  case 0
  then show ?case by simp
next
  case (Suc n)
  from Suc.prems consider "t = s"
    | s1 where "s1 \<in> set (f s)" "t \<in> set (star_iter f n s1)"
    by auto
  then show ?case
  proof cases
    case 1
    then show ?thesis by simp
  next
    case 2
    from f [OF 2(1)] obtain u1 where u1: "s = u1 @ s1" "c \<notin> set u1" by blast
    from Suc.IH [OF 2(2)] obtain u2 where u2: "s1 = u2 @ t" "c \<notin> set u2" by blast
    from u1 u2 have "s = (u1 @ u2) @ t \<and> c \<notin> set (u1 @ u2)" by simp
    then show ?thesis by blast
  qed
qed

lemma rmatch_avoids:
  "avoids c r \<Longrightarrow> t \<in> set (rmatch r s) \<Longrightarrow> \<exists>u. s = u @ t \<and> c \<notin> set u"
proof (induction r arbitrary: s t)
  case (Cls P)
  then show ?case by (cases s) (auto split: if_splits)
next
  case (Cat r1 r2)
  from Cat.prems obtain s1 where s1: "s1 \<in> set (rmatch r1 s)" "t \<in> set (rmatch r2 s1)" by auto
  from Cat.IH(1) [OF _ s1(1)] Cat.prems(1) obtain u1 where u1: "s = u1 @ s1" "c \<notin> set u1" by auto
  from Cat.IH(2) [OF _ s1(2)] Cat.prems(1) obtain u2 where u2: "s1 = u2 @ t" "c \<notin> set u2" by auto
  from u1 u2 have "s = (u1 @ u2) @ t \<and> c \<notin> set (u1 @ u2)" by simp
  then show ?case by blast
next
  case (Alt r1 r2)
  then show ?case by auto
next
  case (Opt r)
  then show ?case by auto
next
  case (Star r)
  have "\<And>s t. t \<in> set (rmatch r s) \<Longrightarrow> \<exists>u. s = u @ t \<and> c \<notin> set u"
    using Star.IH Star.prems(1) by simp
  from star_iter_avoids [of "rmatch r" c, OF this] Star.prems(2) show ?case by simp
next
  case (Plus r)
  have f: "\<And>s t. t \<in> set (rmatch r s) \<Longrightarrow> \<exists>u. s = u @ t \<and> c \<notin> set u"
    using Plus.IH Plus.prems(1) by simp
  from Plus.prems(2) obtain s1 where s1: "s1 \<in> set (rmatch r s)"
    "t \<in> set (star_iter (rmatch r) (length s1) s1)" by auto
  from f [OF s1(1)] obtain u1 where u1: "s = u1 @ s1" "c \<notin> set u1" by blast
  from star_iter_avoids [of "rmatch r" c, OF f s1(2)] obtain u2 where u2: "s1 = u2 @ t" "c \<notin> set u2"
    by blast
  from u1 u2 have "s = (u1 @ u2) @ t \<and> c \<notin> set (u1 @ u2)" by simp
  then show ?case by blast
qed

lemma plus_not_digit: "\<not> is_digit (CHR ''+'')"
  by (simp add: is_digit_def)

lemma avoids_plus:
  "avoids (CHR ''+'') SC_MANTISSA" "avoids (CHR ''+'') SC_OFFSET"
  "avoids (CHR ''+'') (Plus (Cls is_digit))"
  by (simp_all add: SC_MANTISSA_def SC_OFFSET_def chr_def plus_not_digit)

lemma rmatch_Cat_iff:
  "t \<in> set (rmatch (Cat r1 r2) s) \<longleftrightarrow> (\<exists>s1 \<in> set (rmatch r1 s). t \<in> set (rmatch r2 s1))"
  by simp

lemma rmatch_Alt_iff:
  "t \<in> set (rmatch (Alt r1 r2) s) \<longleftrightarrow> t \<in> set (rmatch r1 s) \<or> t \<in> set (rmatch r2 s)"
  by simp

lemma rmatch_Opt_iff: "t \<in> set (rmatch (Opt r) s) \<longleftrightarrow> t \<in> set (rmatch r s) \<or> t = s"
  by auto

lemma rmatch_chr_iff: "t \<in> set (rmatch (chr c) s) \<longleftrightarrow> s = c # t"
  by (cases s) (auto simp: chr_def)

lemma position_group_plus:
  assumes "t \<in> set (rmatch POSITION_GROUP s)"
  shows "\<exists>u. s = u @ t \<and>
           (CHR ''+'' \<notin> set u \<or>
            (\<exists>a b. u = a @ CHR ''+'' # b \<and> CHR ''+'' \<notin> set a \<and> CHR ''+'' \<notin> set b))"
proof -
  from assms have alt: "t \<in> set (rmatch SC_NOTATION s) \<or> t \<in> set (rmatch (Plus (Cls is_digit)) s)"
    by (simp only: POSITION_GROUP_def rmatch_Alt_iff)
  have sc: "t \<in> set (rmatch SC_MANTISSA s) \<or>
      (\<exists>s1 s2. s1 \<in> set (rmatch SC_MANTISSA s) \<and> s1 = CHR ''+'' # s2 \<and>
         t \<in> set (rmatch SC_OFFSET s2))"
    if "t \<in> set (rmatch SC_NOTATION s)"
  proof -
    from that obtain s1 where s1: "s1 \<in> set (rmatch SC_MANTISSA s)"
      "t \<in> set (rmatch (Opt (Cat (chr (CHR ''+'')) SC_OFFSET)) s1)"
      unfolding SC_NOTATION_def rmatch_Cat_iff by blast
    from s1(2) have "t \<in> set (rmatch (Cat (chr (CHR ''+'')) SC_OFFSET) s1) \<or> t = s1"
      by (simp only: rmatch_Opt_iff)
    then show ?thesis
    proof
      assume "t \<in> set (rmatch (Cat (chr (CHR ''+'')) SC_OFFSET) s1)"
      then obtain s2 where "s2 \<in> set (rmatch (chr (CHR ''+'')) s1)" "t \<in> set (rmatch SC_OFFSET s2)"
        unfolding rmatch_Cat_iff by blast
      then have "s1 = CHR ''+'' # s2" "t \<in> set (rmatch SC_OFFSET s2)"
        by (simp_all only: rmatch_chr_iff)
      with s1(1) show ?thesis by blast
    next
      assume "t = s1"
      with s1(1) show ?thesis by blast
    qed
  qed
  from alt sc consider "t \<in> set (rmatch (Plus (Cls is_digit)) s)"
    | "t \<in> set (rmatch SC_MANTISSA s)"
    | s1 s2 where "s1 \<in> set (rmatch SC_MANTISSA s)" "s1 = CHR ''+'' # s2"
        "t \<in> set (rmatch SC_OFFSET s2)"
    by blast
  then show ?thesis
  proof cases
    case 1
    from rmatch_avoids [OF avoids_plus(3) 1] show ?thesis by blast
  next
    case 2
    from rmatch_avoids [OF avoids_plus(1) 2] show ?thesis by blast
  next
    case 3
    from rmatch_avoids [OF avoids_plus(1) 3(1)] obtain a where a: "s = a @ s1" "CHR ''+'' \<notin> set a"
      by blast
    from rmatch_avoids [OF avoids_plus(2) 3(3)] obtain b where b: "s2 = b @ t" "CHR ''+'' \<notin> set b"
      by blast
    from a b 3(2) have "s = (a @ CHR ''+'' # b) @ t" by simp
    with a b show ?thesis by blast
  qed
qed

lemma match_here_Some:
  assumes "match_here r1 r2 s = Some m"
  shows "\<exists>s1 \<in> set (rmatch r1 s). \<exists>s2 \<in> set (rmatch r2 s1).
           m = (take (length s - length s1) s, take (length s1 - length s2) s1, s2)"
proof -
  let ?L = "concat (map (\<lambda>s1. map (\<lambda>s2. (take (length s - length s1) s,
                                            take (length s1 - length s2) s1, s2))
                                   (rmatch r2 s1))
                       (rmatch r1 s))"
  from assms obtain ms where "?L = m # ms"
    by (auto simp: match_here_def split: list.splits)
  then have "m \<in> set ?L" by simp
  then show ?thesis by auto
qed

lemma search_Some:
  "search r1 r2 s = Some m \<Longrightarrow> \<exists>s'. match_here r1 r2 s' = Some m"
  by (induction s) (auto split: option.splits)

lemma position_findall_plus:
  assumes "position_findall path = Some lit"
  shows "CHR ''+'' \<notin> set lit \<or>
         (\<exists>a b. lit = a @ CHR ''+'' # b \<and> CHR ''+'' \<notin> set a \<and> CHR ''+'' \<notin> set b)"
proof -
  from assms obtain t1 rest where "search POS POSITION_GROUP path = Some (t1, lit, rest)"
    by (auto simp: position_findall_def)
  then obtain s' where "match_here POS POSITION_GROUP s' = Some (t1, lit, rest)"
    using search_Some by blast
  from match_here_Some [OF this] obtain s1 where
    s1: "rest \<in> set (rmatch POSITION_GROUP s1)" "lit = take (length s1 - length rest) s1"
    by auto
  from position_group_plus [OF s1(1)] obtain u where
    u: "s1 = u @ rest" "CHR ''+'' \<notin> set u \<or>
            (\<exists>a b. u = a @ CHR ''+'' # b \<and> CHR ''+'' \<notin> set a \<and> CHR ''+'' \<notin> set b)"
    by blast
  from s1(2) u(1) have "lit = u" by simp
  with u(2) show ?thesis by simp
qed

lemma split_char_none: "c \<notin> set a \<Longrightarrow> split_char c a = [a]"
  by (induction a) auto

lemma split_char_at: "c \<notin> set a \<Longrightarrow> split_char c (a @ c # b) = a # split_char c b"
  by (induction a) auto

text \<open>
  C4 (amended). When the literal that the position pattern matches first in a path holds
  a \<^verbatim>\<open>+\<close>, it holds exactly one: the literal is \<open>a + b\<close>, and the position is
  \<^verbatim>\<open>int(float(a)) + int(float(b))\<close>, or the exception of the first conversion that fails.
  When the literal holds no \<^verbatim>\<open>+\<close>, the position is \<^verbatim>\<open>int(float(literal))\<close>.
\<close>

theorem position_of_path_literal:
  assumes "position_findall path = Some lit"
  shows "(CHR ''+'' \<in> set lit \<longrightarrow>
            (\<exists>a b. lit = a @ CHR ''+'' # b \<and> CHR ''+'' \<notin> set a \<and> CHR ''+'' \<notin> set b \<and>
               position_of_path path
                 = ebind (int_float a) (\<lambda>x. ebind (int_float b) (\<lambda>y. Inr (x + y))))) \<and>
         (CHR ''+'' \<notin> set lit \<longrightarrow> position_of_path path = int_float lit)"
proof (intro conjI impI)
  assume p: "CHR ''+'' \<in> set lit"
  with position_findall_plus [OF assms] obtain a b where
    ab: "lit = a @ CHR ''+'' # b" "CHR ''+'' \<notin> set a" "CHR ''+'' \<notin> set b" by blast
  have "split_char (CHR ''+'') lit = [a, b]"
    using ab by (simp add: split_char_at split_char_none)
  with assms p have "position_of_path path
                 = ebind (int_float a) (\<lambda>x. ebind (int_float b) (\<lambda>y. Inr (x + y)))"
    by (simp add: position_of_path_def)
  with ab show "\<exists>a b. lit = a @ CHR ''+'' # b \<and> CHR ''+'' \<notin> set a \<and> CHR ''+'' \<notin> set b \<and>
               position_of_path path
                 = ebind (int_float a) (\<lambda>x. ebind (int_float b) (\<lambda>y. Inr (x + y)))"
    by blast
next
  assume "CHR ''+'' \<notin> set lit"
  with assms show "position_of_path path = int_float lit"
    by (simp add: position_of_path_def)
qed



theorem position_of_path_literal_witness:
  "position_findall ''exp/pos2.5e3+-100/out_all'' = Some ''2.5e3+-100'' \<and>
   position_of_path ''exp/pos2.5e3+-100/out_all'' = Inr 2400 \<and>
   int_float ''2.5e3'' = Inr 2500 \<and> int_float ''-100'' = Inr (- 100) \<and>
   position_findall ''exp/Position2e1/out_all'' = Some ''2e1'' \<and>
   position_of_path ''exp/Position2e1/out_all'' = Inr 20"
proof -
  have h: "position_findall ''exp/pos2.5e3+-100/out_all'' = Some ''2.5e3+-100''" by code_simp
  have k: "position_findall ''exp/Position2e1/out_all'' = Some ''2e1''" by code_simp
  have a: "int_float ''2.5e3'' = Inr 2500" "int_float ''-100'' = Inr (- 100)"
    "int_float ''2e1'' = Inr 20" by code_simp+
  from position_of_path_literal [OF h] obtain x y where
    xy: "''2.5e3+-100'' = x @ CHR ''+'' # y" "CHR ''+'' \<notin> set x"
    "position_of_path ''exp/pos2.5e3+-100/out_all''
       = ebind (int_float x) (\<lambda>u. ebind (int_float y) (\<lambda>v. Inr (u + v)))"
    by auto
  from xy(1,2) have "x = ''2.5e3'' \<and> y = ''-100''"
    by (auto simp: append_eq_Cons_conv Cons_eq_append_conv)
  with xy(3) a have "position_of_path ''exp/pos2.5e3+-100/out_all'' = Inr 2400"
    by (simp add: ebind_def)
  moreover from position_of_path_literal [OF k] have "position_of_path ''exp/Position2e1/out_all'' = Inr 20"
    using a by simp
  ultimately show ?thesis using h k a by simp
qed

text \<open>
  C4 as stated names the path \<^verbatim>\<open>pos2.5e+3-100\<close> as an offset sum. The pattern wants digits
  or \<^verbatim>\<open>-\<close> after \<^verbatim>\<open>e\<close>, so on this path it matches the literal \<^verbatim>\<open>2\<close> only: nothing is split
  and the position is 2.
\<close>

theorem position_of_path_counterexample:
  "position_findall ''pos2.5e+3-100'' = Some ''2'' \<and>
   CHR ''+'' \<notin> set ''2'' \<and>
   position_of_path ''pos2.5e+3-100'' = Inr 2"
  by code_simp

subsection \<open>A path without a position (C6)\<close>

lemma make_df_no_position:
  "position_findall path_file = None \<Longrightarrow>
     make_df path_file raw
       = Inl (FileNotFoundError (path_file @ '' does not encode valid position''))"
  by (simp add: make_df_def position_of_path_def ebind_def)

lemma per_file_make_df_fails:
  "make_df (fst d) (snd d) = Inl e \<Longrightarrow> per_file d ms = Inl e"
  by (simp add: per_file_def ebind_def)

lemma merge_loop_fails:
  "d \<in> set ds \<Longrightarrow> make_df (fst d) (snd d) = Inl e0 \<Longrightarrow> \<exists>e. merge_loop df ds ms = Inl e"
proof (induction ds arbitrary: df ms)
  case Nil
  then show ?case by simp
next
  case (Cons x ds)
  show ?case
  proof (cases "per_file x ms")
    case (Inl e)
    then show ?thesis by (simp add: ebind_def)
  next
    case (Inr res)
    obtain df_i ms' where res: "res = (df_i, ms')" by (cases res)
    from Inr Cons.prems(2) have "x \<noteq> d"
      by (auto simp: per_file_make_df_fails)
    with Cons.prems(1) have mem: "d \<in> set ds" by simp
    show ?thesis
    proof (cases "pd_concat df df_i")
      case (Inl e)
      with Inr res show ?thesis by (simp add: ebind_def)
    next
      case (Inr df')
      from Cons.IH [OF mem Cons.prems(2), of df' ms'] \<open>per_file x ms = Inr res\<close> res Inr
      show ?thesis by (simp add: ebind_def)
    qed
  qed
qed

text \<open>
  C6. A data file whose path holds no position makes \<^verbatim>\<open>make_df\<close> raise \<^verbatim>\<open>FileNotFoundError\<close>
  with the path in the message; \<^verbatim>\<open>merge_tables\<close> raises the same when it is the first file
  found, and returns no table, whatever the other files are, when it is any of the files
  found.
\<close>

theorem position_not_encoded:
  assumes "position_findall path_file = None"
  shows "make_df path_file raw
           = Inl (FileNotFoundError (path_file @ '' does not encode valid position'')) \<and>
         merge_tables path True ((path_file, raw) # data_tables) file_mapping
           = Inl (FileNotFoundError (path_file @ '' does not encode valid position'')) \<and>
         ((path_file, raw) \<in> set tables \<longrightarrow>
            (\<exists>e. merge_tables path path_exists tables mapping = Inl e))"
proof (intro conjI impI)
  show m: "make_df path_file raw
           = Inl (FileNotFoundError (path_file @ '' does not encode valid position''))"
    using assms by (rule make_df_no_position)
  then show "merge_tables path True ((path_file, raw) # data_tables) file_mapping
           = Inl (FileNotFoundError (path_file @ '' does not encode valid position''))"
    by (simp add: merge_tables_def per_file_def ebind_def)
  assume mem: "(path_file, raw) \<in> set tables"
  from m have f: "make_df (fst (path_file, raw)) (snd (path_file, raw))
           = Inl (FileNotFoundError (path_file @ '' does not encode valid position''))" by simp
  show "\<exists>e. merge_tables path path_exists tables mapping = Inl e"
  proof (cases tables)
    case Nil
    with mem show ?thesis by simp
  next
    case (Cons t ts)
    show ?thesis
    proof (cases "per_file t mapping")
      case (Inl e)
      with Cons show ?thesis by (simp add: merge_tables_def ebind_def)
    next
      case (Inr res)
      obtain df ms where res: "res = (df, ms)" by (cases res)
      from Inr f have "t \<noteq> (path_file, raw)"
        by (auto simp: per_file_make_df_fails)
      with mem Cons have "(path_file, raw) \<in> set ts" by simp
      from merge_loop_fails [OF this f, of df ms] Inr res Cons show ?thesis
        by (simp add: merge_tables_def ebind_def)
    qed
  qed
qed

theorem position_not_encoded_witness:
  "position_findall ''exp/out_all'' = None \<and>
   make_df ''exp/out_all'' \<lparr>columns = [''cellID''], rows = [[IntC 1]]\<rparr>
     = Inl (FileNotFoundError ''exp/out_all does not encode valid position'') \<and>
   merge_tables ''exp'' True [(''exp/out_all'', \<lparr>columns = [''cellID''], rows = [[IntC 1]]\<rparr>)] []
     = Inl (FileNotFoundError ''exp/out_all does not encode valid position'') \<and>
   (''exp/out_all'', \<lparr>columns = [''cellID''], rows = [[IntC 1]]\<rparr>)
     \<in> set [(''exp/Position01/out_all'', \<lparr>columns = [''cellID''], rows = []\<rparr>),
            (''exp/out_all'', \<lparr>columns = [''cellID''], rows = [[IntC 1]]\<rparr>)] \<and>
   (\<exists>e. merge_tables ''exp'' True
          [(''exp/Position01/out_all'', \<lparr>columns = [''cellID''], rows = []\<rparr>),
           (''exp/out_all'', \<lparr>columns = [''cellID''], rows = [[IntC 1]]\<rparr>)]
          [\<lparr>columns = [''fluor'', ''flag''], rows = []\<rparr>] = Inl e)"
proof -
  have h: "position_findall ''exp/out_all'' = None" by code_simp
  from position_not_encoded [OF h, where raw = "\<lparr>columns = [''cellID''], rows = [[IntC 1]]\<rparr>"
      and path = "''exp''" and data_tables = "[]" and file_mapping = "[]" and path_exists = True
      and tables = "[(''exp/Position01/out_all'', \<lparr>columns = [''cellID''], rows = []\<rparr>),
           (''exp/out_all'', \<lparr>columns = [''cellID''], rows = [[IntC 1]]\<rparr>)]"
      and mapping = "[\<lparr>columns = [''fluor'', ''flag''], rows = []\<rparr>]"]
  show ?thesis using h by simp
qed

subsection \<open>Exhausted file listings (C10)\<close>

lemma per_file_rest:
  "per_file d (m # ms) = Inr (df, ms') \<Longrightarrow> ms' = ms"
  by (auto simp: per_file_def ebind_def split: sum.splits)

lemma per_file_tail:
  "per_file d (m # ms) = Inr (df, ms) \<Longrightarrow> per_file d (m # ms') = Inr (df, ms')"
  by (auto simp: per_file_def ebind_def split: sum.splits)

lemma per_file_no_mapping:
  "make_df (fst d) (snd d) = Inr x \<Longrightarrow> per_file d [] = Inl StopIteration"
  by (simp add: per_file_def ebind_def)

lemma merge_loop_exhausted:
  "merge_loop df xs ms = Inr t \<Longrightarrow> length xs = length ms \<Longrightarrow>
     make_df (fst d) (snd d) = Inr x \<Longrightarrow>
     merge_loop df (xs @ d # rest) ms = Inl StopIteration"
proof (induction xs arbitrary: df ms)
  case Nil
  then show ?case by (simp add: per_file_no_mapping ebind_def)
next
  case (Cons a xs)
  from Cons.prems(2) obtain m ms' where ms: "ms = m # ms'" by (cases ms) auto
  from Cons.prems(1) obtain res where pf: "per_file a ms = Inr res"
    by (cases "per_file a ms") (auto simp: ebind_def)
  obtain df_i ms2 where res: "res = (df_i, ms2)" by (cases res)
  from pf res ms have ms2: "ms2 = ms'" using per_file_rest by blast
  from Cons.prems(1) pf res obtain df' where c: "pd_concat df df_i = Inr df'"
    by (cases "pd_concat df df_i") (auto simp: ebind_def)
  from Cons.prems(1) pf res c have l: "merge_loop df' xs ms2 = Inr t" by (simp add: ebind_def)
  from Cons.prems(2) ms ms2 have "length xs = length ms2" by simp
  from Cons.IH [OF l this Cons.prems(3)] pf res c show ?case by (simp add: ebind_def)
qed

text \<open>
  C10 (amended). \<^verbatim>\<open>merge_tables\<close> on an existing path raises \<^verbatim>\<open>StopIteration\<close> when no data
  file is found, and when fewer metadata files than data files are found provided
  the data files that have a metadata file merge without error and \<^verbatim>\<open>make_df\<close> accepts the
  first data file that has none.
\<close>

theorem merge_tables_stop_iteration:
  assumes "data_tables = [] \<or>
     (length file_mapping < length data_tables \<and>
      (file_mapping \<noteq> [] \<longrightarrow>
         (\<exists>df. merge_tables path True (take (length file_mapping) data_tables) file_mapping = Inr df)) \<and>
      (\<exists>df. make_df (fst (data_tables ! length file_mapping))
                     (snd (data_tables ! length file_mapping)) = Inr df))"
  shows "merge_tables path True data_tables file_mapping = Inl StopIteration"
proof (cases "data_tables = []")
  case True
  then show ?thesis by (simp add: merge_tables_def)
next
  case False
  let ?n = "length file_mapping"
  from False assms have n: "?n < length data_tables"
    and pre: "file_mapping \<noteq> [] \<longrightarrow>
         (\<exists>df. merge_tables path True (take ?n data_tables) file_mapping = Inr df)"
    and nxt: "\<exists>df. make_df (fst (data_tables ! ?n)) (snd (data_tables ! ?n)) = Inr df"
    by auto
  from nxt obtain x where x: "make_df (fst (data_tables ! ?n)) (snd (data_tables ! ?n)) = Inr x"
    by blast
  have split: "data_tables = take ?n data_tables @ data_tables ! ?n # drop (Suc ?n) data_tables"
    using n by (simp add: id_take_nth_drop)
  show ?thesis
  proof (cases file_mapping)
    case Nil
    with split have "data_tables = data_tables ! 0 # drop (Suc 0) data_tables" by simp
    then obtain rest where "data_tables = data_tables ! 0 # rest" by blast
    with x Nil show ?thesis
      by (metis (no_types, lifting) ebind_def list.simps(5) list.size(3) merge_tables_def
          per_file_no_mapping sum.simps(5))
  next
    case (Cons m ms)
    with pre obtain t where t: "merge_tables path True (take ?n data_tables) file_mapping = Inr t"
      by auto
    from n Cons obtain d0 xs where tk: "take ?n data_tables = d0 # xs"
      by (cases "take ?n data_tables") auto
    from t tk obtain res where pf: "per_file d0 file_mapping = Inr res"
      by (cases "per_file d0 file_mapping") (auto simp: merge_tables_def ebind_def)
    obtain df ms2 where res: "res = (df, ms2)" by (cases res)
    from pf res Cons have ms2: "ms2 = ms" using per_file_rest by blast
    from t tk pf res have l: "merge_loop df xs ms2 = Inr t"
      by (simp add: merge_tables_def ebind_def)
    have "length (take ?n data_tables) = ?n" using n by simp
    with tk Cons ms2 have len: "length xs = length ms2" by simp
    from merge_loop_exhausted [OF l len x]
    have "merge_loop df (xs @ data_tables ! ?n # drop (Suc ?n) data_tables) ms2 = Inl StopIteration" .
    moreover from split tk have "data_tables = d0 # xs @ data_tables ! ?n # drop (Suc ?n) data_tables"
      by simp
    ultimately show ?thesis using pf res
      by (metis (no_types, lifting) ebind_def list.simps(5) merge_tables_def old.prod.case
          sum.simps(6))
  qed
qed

theorem merge_tables_stop_iteration_witness:
  "merge_tables ''exp'' True [] [] = Inl StopIteration \<and>
   merge_tables ''exp'' True
     [(''exp/Position01/out_all'',
        \<lparr>columns = [''cellID'', ''t.frame'', ''flag'', ''f.tot''],
           rows = [[IntC 1, IntC 0, IntC 0, IntC 10], [IntC 1, IntC 0, IntC 1, IntC 20]]\<rparr>),
      (''exp/Position02/out_all'',
        \<lparr>columns = [''cellID'', ''t.frame'', ''flag'', ''f.tot''],
           rows = [[IntC 1, IntC 0, IntC 0, IntC 30], [IntC 1, IntC 0, IntC 1, IntC 40]]\<rparr>)]
     [\<lparr>columns = [''fluor'', ''flag''],
         rows = [[StrC ''BF_Position1'', IntC 0], [StrC ''YFP_Position1'', IntC 1]]\<rparr>]
     = Inl StopIteration"
proof -
  let ?d1 = "(''exp/Position01/out_all'',
        \<lparr>columns = [''cellID'', ''t.frame'', ''flag'', ''f.tot''],
           rows = [[IntC 1, IntC 0, IntC 0, IntC 10], [IntC 1, IntC 0, IntC 1, IntC 20]]\<rparr>)"
  let ?d2 = "(''exp/Position02/out_all'',
        \<lparr>columns = [''cellID'', ''t.frame'', ''flag'', ''f.tot''],
           rows = [[IntC 1, IntC 0, IntC 0, IntC 30], [IntC 1, IntC 0, IntC 1, IntC 40]]\<rparr>)"
  let ?m = "\<lparr>columns = [''fluor'', ''flag''],
         rows = [[StrC ''BF_Position1'', IntC 0], [StrC ''YFP_Position1'', IntC 1]]\<rparr>"
  have a: "merge_tables ''exp'' True [?d1] [?m]
     = Inr \<lparr>columns = [''pos'', ''t_frame'', ''ucid'', ''cellID'', ''flag'', ''f_tot_bf'', ''f_tot_yfp''],
            rows = [[IntC 1, IntC 0, IntC 100000000001, IntC 1, IntC 0, IntC 10, IntC 20]]\<rparr>"
    by code_simp
  have b: "make_df (fst ?d2) (snd ?d2)
     = Inr \<lparr>columns = [''cellID'', ''t_frame'', ''flag'', ''f_tot'', ''ucid'', ''pos''],
            rows = [[IntC 1, IntC 0, IntC 0, IntC 30, IntC 200000000001, IntC 2],
                    [IntC 1, IntC 0, IntC 1, IntC 40, IntC 200000000001, IntC 2]]\<rparr>"
    by code_simp
  have "merge_tables ''exp'' True [?d1, ?d2] [?m] = Inl StopIteration"
    by (rule merge_tables_stop_iteration) (use a b in simp)
  moreover have "merge_tables ''exp'' True [] [] = Inl StopIteration"
    by (rule merge_tables_stop_iteration) simp
  ultimately show ?thesis by blast
qed

text \<open>
  C10 as stated fails when an earlier step raises first: one data file whose path holds no
  position and no metadata file give \<^verbatim>\<open>FileNotFoundError\<close>.
\<close>

theorem merge_tables_stop_iteration_counterexample:
  "length ([] :: dataframe list) < length [(''exp/out_all'', \<lparr>columns = [''cellID''], rows = [[IntC 1]]\<rparr>)] \<and>
   merge_tables ''exp'' True [(''exp/out_all'', \<lparr>columns = [''cellID''], rows = [[IntC 1]]\<rparr>)] []
     = Inl (FileNotFoundError ''exp/out_all does not encode valid position'')"
  by code_simp

subsection \<open>The same file merged twice (C8)\<close>

text \<open>
  C8. When one data file with its metadata file merges into a table, concatenating that
  table with itself, which is also what \<^verbatim>\<open>merge_tables\<close> returns when it finds the pair
  twice, gives twice the rows and the same columns.
\<close>

theorem merge_same_file_twice:
  assumes "merge_tables path True [data_table] [mapping] = Inr df"
  shows "\<exists>df2. pd_concat df df = Inr df2 \<and>
           merge_tables path True [data_table, data_table] [mapping, mapping] = Inr df2 \<and>
           length (rows df2) = 2 * length (rows df) \<and> columns df2 = columns df"
proof -
  from assms obtain res where pf: "per_file data_table [mapping] = Inr res"
    by (cases "per_file data_table [mapping]") (auto simp: merge_tables_def ebind_def)
  obtain x ms where res: "res = (x, ms)" by (cases res)
  from pf res have ms: "ms = []" using per_file_rest by blast
  from assms pf res have x: "x = df" by (simp add: merge_tables_def ebind_def)
  from pf res ms x have one: "per_file data_table [mapping] = Inr (df, [])" by simp
  then have two: "per_file data_table [mapping, mapping] = Inr (df, [mapping])"
    by (rule per_file_tail)
  let ?df2 = "\<lparr>columns = columns df, rows = rows df @ rows df\<rparr>"
  have c: "pd_concat df df = Inr ?df2" by (simp add: pd_concat_def)
  have "merge_tables path True [data_table, data_table] [mapping, mapping] = Inr ?df2"
    using one two c by (simp add: merge_tables_def ebind_def)
  with c show ?thesis by simp
qed

theorem merge_same_file_twice_witness:
  "merge_tables ''exp'' True
     [(''exp/Position01/out_all'',
        \<lparr>columns = [''cellID'', ''t.frame'', ''flag'', ''f.tot''],
           rows = [[IntC 1, IntC 0, IntC 0, IntC 10], [IntC 1, IntC 0, IntC 1, IntC 20]]\<rparr>)]
     [\<lparr>columns = [''fluor'', ''flag''],
         rows = [[StrC ''BF_Position1'', IntC 0], [StrC ''YFP_Position1'', IntC 1]]\<rparr>]
     = Inr \<lparr>columns = [''pos'', ''t_frame'', ''ucid'', ''cellID'', ''flag'', ''f_tot_bf'', ''f_tot_yfp''],
            rows = [[IntC 1, IntC 0, IntC 100000000001, IntC 1, IntC 0, IntC 10, IntC 20]]\<rparr> \<and>
   merge_tables ''exp'' True
     [(''exp/Position01/out_all'',
        \<lparr>columns = [''cellID'', ''t.frame'', ''flag'', ''f.tot''],
           rows = [[IntC 1, IntC 0, IntC 0, IntC 10], [IntC 1, IntC 0, IntC 1, IntC 20]]\<rparr>),
      (''exp/Position01/out_all'',
        \<lparr>columns = [''cellID'', ''t.frame'', ''flag'', ''f.tot''],
           rows = [[IntC 1, IntC 0, IntC 0, IntC 10], [IntC 1, IntC 0, IntC 1, IntC 20]]\<rparr>)]
     [\<lparr>columns = [''fluor'', ''flag''],
         rows = [[StrC ''BF_Position1'', IntC 0], [StrC ''YFP_Position1'', IntC 1]]\<rparr>,
      \<lparr>columns = [''fluor'', ''flag''],
         rows = [[StrC ''BF_Position1'', IntC 0], [StrC ''YFP_Position1'', IntC 1]]\<rparr>]
     = Inr \<lparr>columns = [''pos'', ''t_frame'', ''ucid'', ''cellID'', ''flag'', ''f_tot_bf'', ''f_tot_yfp''],
            rows = [[IntC 1, IntC 0, IntC 100000000001, IntC 1, IntC 0, IntC 10, IntC 20],
                    [IntC 1, IntC 0, IntC 100000000001, IntC 1, IntC 0, IntC 10, IntC 20]]\<rparr>"
proof -
  let ?d = "(''exp/Position01/out_all'',
        \<lparr>columns = [''cellID'', ''t.frame'', ''flag'', ''f.tot''],
           rows = [[IntC 1, IntC 0, IntC 0, IntC 10], [IntC 1, IntC 0, IntC 1, IntC 20]]\<rparr>)"
  let ?m = "\<lparr>columns = [''fluor'', ''flag''],
         rows = [[StrC ''BF_Position1'', IntC 0], [StrC ''YFP_Position1'', IntC 1]]\<rparr>"
  have a: "merge_tables ''exp'' True [?d] [?m]
     = Inr \<lparr>columns = [''pos'', ''t_frame'', ''ucid'', ''cellID'', ''flag'', ''f_tot_bf'', ''f_tot_yfp''],
            rows = [[IntC 1, IntC 0, IntC 100000000001, IntC 1, IntC 0, IntC 10, IntC 20]]\<rparr>"
    by code_simp
  from merge_same_file_twice [OF a] a show ?thesis by (auto simp: pd_concat_def)
qed

subsection \<open>Decoding the channels (C9, C5)\<close>

lemma traverse_Inl: "traverse f xs = Inl e \<Longrightarrow> \<exists>x \<in> set xs. f x = Inl e"
  by (induction xs) (auto split: sum.splits)

lemma traverse_Inr: "traverse f xs = Inr ys \<Longrightarrow> \<forall>x \<in> set xs. \<exists>y. f x = Inr y"
  by (induction xs arbitrary: ys) (auto split: sum.splits)

lemma traverse_keys:
  "traverse (\<lambda>x. ebind (g x) (\<lambda>c. Inr (x, c))) xs = Inr ys \<Longrightarrow> map fst ys = xs"
  by (induction xs arbitrary: ys) (auto simp: ebind_def split: sum.splits)

lemma cell_eq_int: "is_int a \<Longrightarrow> is_int b \<Longrightarrow> cell_eq a b \<longleftrightarrow> a = b"
  by (auto simp: is_int_def cell_eq_def split: cell.splits)

lemma cell_same_int: "is_int a \<Longrightarrow> is_int b \<Longrightarrow> cell_same a b \<longleftrightarrow> a = b"
  by (auto simp: cell_same_def cell_eq_int is_int_def)

lemma unique_acc_subset: "set (unique_acc same seen xs) \<subseteq> set xs"
  by (induction xs arbitrary: seen) auto

lemma unique_acc_int:
  "list_all is_int xs \<Longrightarrow> list_all is_int seen \<Longrightarrow>
     set (unique_acc cell_same seen xs) = set xs - set seen"
proof (induction xs arbitrary: seen)
  case Nil
  then show ?case by simp
next
  case (Cons x xs)
  have ex: "list_ex (\<lambda>s. cell_same s x) seen \<longleftrightarrow> x \<in> set seen"
    using Cons.prems by (auto simp: list_ex_iff list_all_iff cell_same_int)
  show ?case
  proof (cases "x \<in> set seen")
    case True
    with ex Cons show ?thesis by auto
  next
    case False
    from Cons.prems have "list_all is_int (seen @ [x])" by simp
    with Cons.IH [of "seen @ [x]"] Cons.prems(1)
    have "set (unique_acc cell_same (seen @ [x]) xs) = set xs - set (seen @ [x])" by simp
    with False ex show ?thesis by auto
  qed
qed

lemma unique_by_int: "list_all is_int xs \<Longrightarrow> set (unique_by cell_same xs) = set xs"
  using unique_acc_int [of xs "[]"] by (simp add: unique_by_def)

lemma set_insert_by: "set (insert_by le x xs) = insert x (set xs)"
  by (induction xs) auto

lemma set_sort_by: "set (sort_by le xs) = set xs"
  by (induction xs) (simp_all add: sort_by_def set_insert_by)

lemma first_match:
  "length xs = length ys \<Longrightarrow> i < length xs \<Longrightarrow> P (xs ! i) \<Longrightarrow> \<forall>j < i. \<not> P (xs ! j) \<Longrightarrow>
     \<exists>rest. filter (\<lambda>(a, b). P a) (zip xs ys) = (xs ! i, ys ! i) # rest"
proof (induction xs ys arbitrary: i rule: list_induct2)
  case Nil
  then show ?case by simp
next
  case (Cons x xs y ys)
  show ?case
  proof (cases i)
    case 0
    with Cons.prems show ?thesis by simp
  next
    case (Suc k)
    with Cons.prems have "k < length xs" "P (xs ! k)" "\<forall>j < k. \<not> P (xs ! j)" "\<not> P x"
      by auto
    with Cons.IH [of k] Suc show ?thesis by simp
  qed
qed

lemma decod_chanel_first:
  assumes "get_column df_mapping ''flag'' = Inr flags"
    and "get_column df_mapping ''fluor'' = Inr fluors"
    and "i < length flags" and "cell_eq (flags ! i) flag"
    and "\<forall>j < i. \<not> cell_eq (flags ! j) flag"
  shows "decod_chanel df_mapping flag =
           (if falsy (fluors ! i) then Inl (ValueError_not_encoding flag df_mapping)
            else case fluors ! i of
                   StrC p \<Rightarrow> (case channel_findall p of
                                None \<Rightarrow> Inl IndexError
                              | Some (g1, g2) \<Rightarrow> Inr (lower g1))
                 | _ \<Rightarrow> Inl TypeError)"
proof -
  have "length flags = length fluors"
    using assms(1,2) by (auto simp: get_column_def split: option.splits)
  from first_match [OF this assms(3), of "\<lambda>a. cell_eq a flag"] assms(4,5)
  obtain rest where "filter (\<lambda>(fg, fl). cell_eq fg flag) (zip flags fluors)
      = (flags ! i, fluors ! i) # rest" by blast
  then show ?thesis
    using assms(1,2) by (simp add: decod_chanel_def ebind_def)
qed

lemma make_cols_chan_decode_fails:
  assumes "get_column df_map ''flag'' = Inr flags"
    and "traverse (\<lambda>fg. ebind (decod_chanel df_map fg) (\<lambda>ch. Inr (fg, ch)))
           (unique_by cell_same flags) = Inl e"
  shows "\<exists>e'. make_cols_chan df df_map = Inl e'"
proof (cases "pivot df [''ucid'', ''t_frame''] ''flag''
                (filter (\<lambda>f_var. startswith f_var ''f_'') (columns df))")
  case (Inl e0)
  then show ?thesis by (simp add: make_cols_chan_def ebind_def)
next
  case (Inr pv)
  obtain ks pcols pcells where "pv = (ks, pcols, pcells)" by (cases pv)
  with Inr assms show ?thesis by (simp add: make_cols_chan_def ebind_def)
qed

text \<open>
  C9. In a metadata table with integer flags, let the first entry of some flag have a
  descriptor that is a non-empty string in which the channel pattern matches nowhere (such
  as \<^verbatim>\<open>cellID\<close>). Then decoding that flag raises \<^verbatim>\<open>IndexError\<close>, and reshaping any data table
  with this metadata table raises an exception, whatever the data table holds.
\<close>

theorem descriptor_without_channel:
  assumes "get_column df_map ''flag'' = Inr flags"
    and "get_column df_map ''fluor'' = Inr fluors"
    and "list_all is_int flags"
    and "i < length flags" and "\<forall>j < i. flags ! j \<noteq> flags ! i"
    and "fluors ! i = StrC descriptor" and "descriptor \<noteq> []"
    and "channel_findall descriptor = None"
  shows "decod_chanel df_map (flags ! i) = Inl IndexError \<and>
         (\<forall>df. \<exists>e. make_cols_chan df df_map = Inl e)"
proof
  have ii: "is_int (flags ! i)" using assms(3,4) by (simp add: list_all_length)
  have self: "cell_eq (flags ! i) (flags ! i)" using ii by (simp add: cell_eq_int)
  have before: "\<forall>j < i. \<not> cell_eq (flags ! j) (flags ! i)"
  proof (intro allI impI)
    fix j assume j: "j < i"
    with assms(3,4) have "is_int (flags ! j)" by (simp add: list_all_length)
    with ii j assms(5) show "\<not> cell_eq (flags ! j) (flags ! i)" by (simp add: cell_eq_int)
  qed
  from decod_chanel_first [OF assms(1,2,4) self before] assms(6,7,8)
  show d: "decod_chanel df_map (flags ! i) = Inl IndexError" by (simp add: falsy_def)
  show "\<forall>df. \<exists>e. make_cols_chan df df_map = Inl e"
  proof
    fix df
    let ?dec = "\<lambda>fg. ebind (decod_chanel df_map fg) (\<lambda>ch. Inr (fg, ch))"
    have mem: "flags ! i \<in> set (unique_by cell_same flags)"
      using assms(3,4) by (simp add: unique_by_int)
    have "\<exists>e. traverse ?dec (unique_by cell_same flags) = Inl e"
    proof (cases "traverse ?dec (unique_by cell_same flags)")
      case (Inl e)
      then show ?thesis by blast
    next
      case (Inr ys)
      from traverse_Inr [OF this] mem obtain y where "?dec (flags ! i) = Inr y" by blast
      with d show ?thesis by (simp add: ebind_def)
    qed
    then obtain e where "traverse ?dec (unique_by cell_same flags) = Inl e" by blast
    from make_cols_chan_decode_fails [OF assms(1) this] show "\<exists>e. make_cols_chan df df_map = Inl e" .
  qed
qed

theorem descriptor_without_channel_witness:
  "channel_findall ''cellID'' = None \<and>
   decod_chanel \<lparr>columns = [''flag'', ''fluor''],
                  rows = [[IntC 0, StrC ''cellID''], [IntC 1, StrC ''yfp_Position'']]\<rparr> (IntC 0)
     = Inl IndexError \<and>
   (\<exists>e. make_cols_chan
          \<lparr>columns = [''cellID'', ''t_frame'', ''flag'', ''f_tot'', ''ucid'', ''pos''],
             rows = [[IntC 1, IntC 0, IntC 0, IntC 10, IntC 100000000001, IntC 1],
                     [IntC 1, IntC 0, IntC 1, IntC 20, IntC 100000000001, IntC 1]]\<rparr>
          \<lparr>columns = [''flag'', ''fluor''],
             rows = [[IntC 0, StrC ''cellID''], [IntC 1, StrC ''yfp_Position'']]\<rparr> = Inl e)"
proof -
  let ?m = "\<lparr>columns = [''flag'', ''fluor''],
             rows = [[IntC 0, StrC ''cellID''], [IntC 1, StrC ''yfp_Position'']]\<rparr>"
  have h1: "get_column ?m ''flag'' = Inr [IntC 0, IntC 1]" by code_simp
  have h2: "get_column ?m ''fluor'' = Inr [StrC ''cellID'', StrC ''yfp_Position'']" by code_simp
  have h3: "list_all is_int [IntC 0, IntC 1]" by code_simp
  have h4: "(0::nat) < length [IntC 0, IntC 1]" by simp
  have h5: "\<forall>j < (0::nat). [IntC 0, IntC 1] ! j \<noteq> [IntC 0, IntC 1] ! 0" by simp
  have h6: "[StrC ''cellID'', StrC ''yfp_Position''] ! 0 = StrC ''cellID''" by simp
  have h7: "''cellID'' \<noteq> []" by simp
  have h8: "channel_findall ''cellID'' = None" by code_simp
  from descriptor_without_channel [OF h1 h2 h3 h4 h5 h6 h7 h8] h8 show ?thesis by simp
qed

lemma pivot_columns:
  assumes "pivot df index cols vals = Inr (ks, pcols, pcells)"
    and "get_column df cols = Inr cs"
  shows "pcols = concat (map (\<lambda>v. map (\<lambda>f. (v, f)) (sort_by cell_le (unique_by cell_same cs))) vals)"
proof -
  from assms(2) obtain ci where ci: "column_index (columns df) cols = Some ci"
    "cs = map (\<lambda>r. r ! ci) (rows df)"
    by (auto simp: get_column_def split: option.splits)
  then have "col_pos df cols = Inr ci" by (simp add: col_pos_def)
  with assms(1) ci(2) show ?thesis
    by (auto simp: pivot_def ebind_def Let_def split: sum.splits if_splits)
qed

lemma make_cols_chan_rename_fails:
  assumes "pivot df [''ucid'', ''t_frame''] ''flag''
             (filter (\<lambda>f_var. startswith f_var ''f_'') (columns df)) = Inr (ks, pcols, pcells)"
    and "get_column df_map ''flag'' = Inr flags"
    and "traverse (\<lambda>fg. ebind (decod_chanel df_map fg) (\<lambda>ch. Inr (fg, ch)))
           (unique_by cell_same flags) = Inr chanels"
    and "traverse (\<lambda>(v, f). case find (\<lambda>(fg, ch). cell_eq fg f) chanels of
                                None \<Rightarrow> Inl (KeyError f)
                              | Some (fg, ch) \<Rightarrow> Inr (v @ ''_'' @ ch)) pcols = Inl e"
  shows "make_cols_chan df df_map = Inl e"
  using assms by (simp add: make_cols_chan_def ebind_def)

lemma make_cols_chan_decode_error:
  assumes "pivot df [''ucid'', ''t_frame''] ''flag''
             (filter (\<lambda>f_var. startswith f_var ''f_'') (columns df)) = Inr (ks, pcols, pcells)"
    and "get_column df_map ''flag'' = Inr flags"
    and "traverse (\<lambda>fg. ebind (decod_chanel df_map fg) (\<lambda>ch. Inr (fg, ch)))
           (unique_by cell_same flags) = Inl e"
  shows "make_cols_chan df df_map = Inl e"
  using assms by (simp add: make_cols_chan_def ebind_def)

lemma find_None_keys:
  "find (\<lambda>(fg, ch). cell_eq fg f) chanels = None \<longleftrightarrow> (\<forall>k \<in> set (map fst chanels). \<not> cell_eq k f)"
  by (auto simp: find_None_iff)

text \<open>
  C5. Take a data table that \<^verbatim>\<open>pivot\<close> accepts, with a fluorescence column at least and
  integer flags, and a metadata table with integer flags that has no entry for a flag of
  the data table. Then reshaping raises an exception: the one the channel decoder raises
  on a flag of the metadata table, or \<^verbatim>\<open>KeyError\<close> with a flag of the data table that the
  metadata table lacks; no table without that channel is returned. And when the first
  metadata entry of a flag has an empty (false) descriptor, the channel decoder raises the
  \<^verbatim>\<open>ValueError\<close> that names the flag and the metadata table.
\<close>

theorem flag_without_channel:
  "(pivot df [''ucid'', ''t_frame''] ''flag''
       (filter (\<lambda>f_var. startswith f_var ''f_'') (columns df)) = Inr pv \<and>
    filter (\<lambda>f_var. startswith f_var ''f_'') (columns df) \<noteq> [] \<and>
    get_column df ''flag'' = Inr data_flags \<and> list_all is_int data_flags \<and>
    get_column df_map ''flag'' = Inr flags \<and> list_all is_int flags \<and>
    flag \<in> set data_flags \<and> flag \<notin> set flags
    \<longrightarrow> (\<exists>e. make_cols_chan df df_map = Inl e \<and>
              ((\<exists>fg \<in> set flags. decod_chanel df_map fg = Inl e) \<or>
               (\<exists>f \<in> set data_flags. f \<notin> set flags \<and> e = KeyError f)))) \<and>
   (get_column df_mapping ''flag'' = Inr mflags \<and> get_column df_mapping ''fluor'' = Inr fluors \<and>
    i < length mflags \<and> cell_eq (mflags ! i) fg \<and> (\<forall>j < i. \<not> cell_eq (mflags ! j) fg) \<and>
    falsy (fluors ! i)
    \<longrightarrow> decod_chanel df_mapping fg = Inl (ValueError_not_encoding fg df_mapping))"
proof (intro conjI impI)
  assume a: "get_column df_mapping ''flag'' = Inr mflags \<and> get_column df_mapping ''fluor'' = Inr fluors \<and>
    i < length mflags \<and> cell_eq (mflags ! i) fg \<and> (\<forall>j < i. \<not> cell_eq (mflags ! j) fg) \<and>
    falsy (fluors ! i)"
  then have a1: "get_column df_mapping ''flag'' = Inr mflags"
    and a2: "get_column df_mapping ''fluor'' = Inr fluors"
    and a3: "i < length mflags" and a4: "cell_eq (mflags ! i) fg"
    and a5: "\<forall>j < i. \<not> cell_eq (mflags ! j) fg" by simp_all
  note decod_chanel_first [OF a1 a2 a3 a4 a5]
  with a show "decod_chanel df_mapping fg = Inl (ValueError_not_encoding fg df_mapping)" by simp
next
  let ?fluor = "filter (\<lambda>f_var. startswith f_var ''f_'') (columns df)"
  let ?dec = "\<lambda>fg. ebind (decod_chanel df_map fg) (\<lambda>ch. Inr (fg, ch))"
  assume a: "pivot df [''ucid'', ''t_frame''] ''flag'' ?fluor = Inr pv \<and>
    ?fluor \<noteq> [] \<and>
    get_column df ''flag'' = Inr data_flags \<and> list_all is_int data_flags \<and>
    get_column df_map ''flag'' = Inr flags \<and> list_all is_int flags \<and>
    flag \<in> set data_flags \<and> flag \<notin> set flags"
  obtain ks pcols pcells where pv: "pv = (ks, pcols, pcells)" by (cases pv)
  with a have p: "pivot df [''ucid'', ''t_frame''] ''flag'' ?fluor = Inr (ks, pcols, pcells)" by simp
  from a have gm: "get_column df_map ''flag'' = Inr flags" by simp
  show "\<exists>e. make_cols_chan df df_map = Inl e \<and>
              ((\<exists>fg \<in> set flags. decod_chanel df_map fg = Inl e) \<or>
               (\<exists>f \<in> set data_flags. f \<notin> set flags \<and> e = KeyError f))"
  proof (cases "traverse ?dec (unique_by cell_same flags)")
    case (Inl e)
    from traverse_Inl [OF this] obtain g where g: "g \<in> set (unique_by cell_same flags)"
      "?dec g = Inl e" by blast
    from g(2) have "decod_chanel df_map g = Inl e"
      by (cases "decod_chanel df_map g") (simp_all add: ebind_def)
    moreover from g(1) a have "g \<in> set flags" by (simp add: unique_by_int)
    moreover from make_cols_chan_decode_error [OF p gm Inl] have "make_cols_chan df df_map = Inl e" .
    ultimately show ?thesis by blast
  next
    case (Inr chanels)
    let ?ren = "\<lambda>(v, f). case find (\<lambda>(fg, ch). cell_eq fg f) chanels of
                                None \<Rightarrow> Inl (KeyError f)
                              | Some (fg, ch) \<Rightarrow> Inr (v @ ''_'' @ ch)"
    from traverse_keys [OF Inr] a have keys: "set (map fst chanels) = set flags"
      by (simp add: unique_by_int)
    from a have dset: "set (sort_by cell_le (unique_by cell_same data_flags)) = set data_flags"
      by (simp add: set_sort_by unique_by_int)
    from a have pc: "pcols = concat (map (\<lambda>v. map (\<lambda>f. (v, f))
                        (sort_by cell_le (unique_by cell_same data_flags))) ?fluor)"
      using pivot_columns [OF p] by simp
    from a obtain v0 where v0: "v0 \<in> set ?fluor" by (cases ?fluor) auto
    from a dset have "flag \<in> set (sort_by cell_le (unique_by cell_same data_flags))" by simp
    with v0 pc have mem: "(v0, flag) \<in> set pcols" by auto
    have isint: "is_int flag" "\<forall>k \<in> set flags. is_int k"
      using a by (auto simp: list_all_iff)
    have "find (\<lambda>(fg, ch). cell_eq fg flag) chanels = None"
      unfolding find_None_keys keys using isint a by (auto simp: cell_eq_int)
    then have r0: "?ren (v0, flag) = Inl (KeyError flag)" by simp
    have "\<exists>e. traverse ?ren pcols = Inl e"
    proof (cases "traverse ?ren pcols")
      case (Inl e)
      then show ?thesis by blast
    next
      case (Inr ys)
      from traverse_Inr [OF this] mem obtain y where "?ren (v0, flag) = Inr y" by blast
      with r0 show ?thesis by simp
    qed
    then obtain e where e: "traverse ?ren pcols = Inl e" by blast
    from traverse_Inl [OF e] obtain v f where vf: "(v, f) \<in> set pcols" "?ren (v, f) = Inl e"
      by auto
    from vf(2) have ek: "e = KeyError f" "find (\<lambda>(fg, ch). cell_eq fg f) chanels = None"
      by (auto split: option.splits)
    from vf(1) pc dset have fd: "f \<in> set data_flags" by auto
    with a have "is_int f" by (auto simp: list_all_iff)
    with ek(2) isint(2) have "f \<notin> set flags"
      unfolding find_None_keys keys by (auto simp: cell_eq_int)
    moreover from make_cols_chan_rename_fails [OF p gm Inr e] have "make_cols_chan df df_map = Inl e" .
    ultimately show ?thesis using ek(1) fd by blast
  qed
qed

theorem flag_without_channel_witness:
  "pivot \<lparr>columns = [''cellID'', ''t_frame'', ''flag'', ''f_tot'', ''ucid'', ''pos''],
           rows = [[IntC 1, IntC 0, IntC 0, IntC 10, IntC 100000000001, IntC 1],
                   [IntC 1, IntC 0, IntC 1, IntC 20, IntC 100000000001, IntC 1]]\<rparr>
      [''ucid'', ''t_frame''] ''flag'' [''f_tot'']
     = Inr ([[IntC 100000000001, IntC 0]], [(''f_tot'', IntC 0), (''f_tot'', IntC 1)],
            [[IntC 10, IntC 20]]) \<and>
   IntC 1 \<in> set [IntC 0, IntC 1] \<and> IntC 1 \<notin> set [IntC 0] \<and>
   make_cols_chan
     \<lparr>columns = [''cellID'', ''t_frame'', ''flag'', ''f_tot'', ''ucid'', ''pos''],
        rows = [[IntC 1, IntC 0, IntC 0, IntC 10, IntC 100000000001, IntC 1],
                [IntC 1, IntC 0, IntC 1, IntC 20, IntC 100000000001, IntC 1]]\<rparr>
     \<lparr>columns = [''flag'', ''fluor''], rows = [[IntC 0, StrC ''BF_Position1'']]\<rparr>
     = Inl (KeyError (IntC 1)) \<and>
   falsy (StrC '''') \<and>
   decod_chanel \<lparr>columns = [''flag'', ''fluor''],
                  rows = [[IntC 0, StrC ''BF_Position1''], [IntC 2, StrC '''']]\<rparr> (IntC 2)
     = Inl (ValueError_not_encoding (IntC 2)
              \<lparr>columns = [''flag'', ''fluor''],
                 rows = [[IntC 0, StrC ''BF_Position1''], [IntC 2, StrC '''']]\<rparr>)"
proof -
  let ?df = "\<lparr>columns = [''cellID'', ''t_frame'', ''flag'', ''f_tot'', ''ucid'', ''pos''],
        rows = [[IntC 1, IntC 0, IntC 0, IntC 10, IntC 100000000001, IntC 1],
                [IntC 1, IntC 0, IntC 1, IntC 20, IntC 100000000001, IntC 1]]\<rparr>"
  let ?m = "\<lparr>columns = [''flag'', ''fluor''], rows = [[IntC 0, StrC ''BF_Position1'']]\<rparr>"
  let ?m2 = "\<lparr>columns = [''flag'', ''fluor''],
                  rows = [[IntC 0, StrC ''BF_Position1''], [IntC 2, StrC '''']]\<rparr>"
  let ?pv = "([[IntC 100000000001, IntC 0]], [(''f_tot'', IntC 0), (''f_tot'', IntC 1)],
            [[IntC 10, IntC 20]])"
  have f: "filter (\<lambda>f_var. startswith f_var ''f_'') (columns ?df) = [''f_tot'']" by code_simp
  have p: "pivot ?df [''ucid'', ''t_frame''] ''flag'' [''f_tot''] = Inr ?pv" by code_simp
  have g1: "get_column ?df ''flag'' = Inr [IntC 0, IntC 1]" by code_simp
  have g2: "get_column ?m ''flag'' = Inr [IntC 0]" by code_simp
  have i1: "list_all is_int [IntC 0, IntC 1]" "list_all is_int [IntC 0]" by code_simp+
  have d: "decod_chanel ?m (IntC 0) = Inr ''bf''" by code_simp
  have k1: "get_column ?m2 ''flag'' = Inr [IntC 0, IntC 2]" by code_simp
  have k2: "get_column ?m2 ''fluor'' = Inr [StrC ''BF_Position1'', StrC '''']" by code_simp
  have k3: "cell_eq ([IntC 0, IntC 2] ! 1) (IntC 2)" "\<not> cell_eq (IntC 0) (IntC 2)"
    "falsy (StrC '''')" by code_simp+
  note t = flag_without_channel [where df = ?df and df_map = ?m and pv = ?pv
      and data_flags = "[IntC 0, IntC 1]" and flags = "[IntC 0]" and flag = "IntC 1"
      and df_mapping = ?m2 and mflags = "[IntC 0, IntC 2]"
      and fluors = "[StrC ''BF_Position1'', StrC '''']" and i = 1 and fg = "IntC 2"]
  from t f p g1 g2 i1 d have "make_cols_chan ?df ?m = Inl (KeyError (IntC 1))" by auto
  moreover from t k1 k2 k3
  have "decod_chanel ?m2 (IntC 2) = Inl (ValueError_not_encoding (IntC 2) ?m2)" by simp
  ultimately show ?thesis using p k3(3) by simp
qed

subsection \<open>The flag column of the reshaped table (C2)\<close>

lemma ebind_Inr: "ebind x f = Inr y \<longleftrightarrow> (\<exists>v. x = Inr v \<and> f v = Inr y)"
  by (cases x) (simp_all add: ebind_def)

lemma col_pos_Inr: "col_pos df name = Inr i \<Longrightarrow> name \<in> set (columns df)"
  by (cases "column_index (columns df) name")
     (auto simp: col_pos_def dest!: column_index_Some nth_mem)

lemma flag_not_fluorescence: "\<not> startswith ''flag'' ''f_''"
  by (simp add: startswith_def)

lemma make_cols_chan_flag_column:
  assumes "make_cols_chan df df_map = Inr t"
  shows "''flag'' \<in> set (columns t)"
proof -
  let ?fluor = "filter (\<lambda>f_var. startswith f_var ''f_'') (columns df)"
  let ?morf = "filter (\<lambda>name. \<not> startswith name ''f_'') (columns df)"
  let ?col = "[''pos'', ''t_frame'', ''ucid'', ''cellID'']"
  note d = make_cols_chan_def ebind_def
  obtain pv where 1: "pivot df [''ucid'', ''t_frame''] ''flag'' ?fluor = Inr pv"
    using assms by (cases "pivot df [''ucid'', ''t_frame''] ''flag'' ?fluor") (simp_all add: d)
  obtain ks pcols pcells where pv: "pv = (ks, pcols, pcells)" by (cases pv)
  obtain flags where 2: "get_column df_map ''flag'' = Inr flags"
    using assms 1 pv by (cases "get_column df_map ''flag''") (simp_all add: d)
  let ?dec = "\<lambda>fg. ebind (decod_chanel df_map fg) (\<lambda>ch. Inr (fg, ch))"
  obtain chanels where 3: "traverse ?dec (unique_by cell_same flags) = Inr chanels"
    using assms 1 pv 2 by (cases "traverse ?dec (unique_by cell_same flags)") (simp_all add: d)
  let ?ren = "\<lambda>(v, f). case find (\<lambda>(fg, ch). cell_eq fg f) chanels of
                                None \<Rightarrow> Inl (KeyError f)
                              | Some (fg, ch) \<Rightarrow> Inr (v @ ''_'' @ ch)"
  obtain fcols where 4: "traverse ?ren pcols = Inr fcols"
    using assms 1 pv 2 3 by (cases "traverse ?ren pcols") (simp_all add: d)
  obtain fi where 5: "col_pos df ''flag'' = Inr fi"
    using assms 1 pv 2 3 4 by (cases "col_pos df ''flag''") (simp_all add: d)
  let ?sel = "select_columns (df\<lparr>rows := filter (\<lambda>r. cell_eq (r ! fi) (IntC 0)) (rows df)\<rparr>) ?morf"
  obtain df_morf where 6: "?sel = Inr df_morf"
    using assms 1 pv 2 3 4 5 by (cases ?sel) (simp_all add: d)
  obtain si where 7: "set_index df_morf [''ucid'', ''t_frame''] = Inr si"
    using assms 1 pv 2 3 4 5 6
    by (cases "set_index df_morf [''ucid'', ''t_frame'']") (simp_all add: d)
  obtain lk lc lr where si: "si = (lk, lc, lr)" by (cases si)
  let ?j = "reset_index [''ucid'', ''t_frame''] (merge_outer (lk, lc, lr) (ks, fcols, pcells))"
  obtain front where 8: "select_columns ?j ?col = Inr front"
    using assms 1 pv 2 3 4 5 6 7 si by (cases "select_columns ?j ?col") (simp_all add: d)
  have t: "t = concat_columns front (drop_columns ?j ?col)"
    using assms 1 pv 2 3 4 5 6 7 si 8 by (simp add: d)
  from 5 have "''flag'' \<in> set ?morf"
    using col_pos_Inr flag_not_fluorescence by auto
  moreover from 6 have "columns df_morf = ?morf"
    by (cases "traverse (col_pos (df\<lparr>rows := filter (\<lambda>r. cell_eq (r ! fi) (IntC 0)) (rows df)\<rparr>)) ?morf")
       (auto simp: select_columns_def ebind_def)
  ultimately have "''flag'' \<in> set lc"
    using 7 si by (auto simp: set_index_def ebind_def Let_def split: sum.splits)
  then show ?thesis
    unfolding t by (simp add: concat_columns_def drop_columns_def reset_index_def merge_outer_def Let_def)
qed

text \<open>
  C2. The docstring of \<^verbatim>\<open>_make_cols_chan\<close> says that the \<^verbatim>\<open>flag\<close> series is removed, but
  \<^verbatim>\<open>flag\<close> does not start with \<^verbatim>\<open>f_\<close>, so it is one of the columns \<^verbatim>\<open>morf\<close> that are kept:
  on this table the reshaped table has a column \<^verbatim>\<open>flag\<close>, as has every table the function
  returns (lemma \<open>make_cols_chan_flag_column\<close>).
\<close>

theorem make_cols_chan_keeps_flag:
  "make_cols_chan
     \<lparr>columns = [''cellID'', ''t_frame'', ''flag'', ''a_tot'', ''f_tot'', ''ucid'', ''pos''],
        rows = [[IntC 1, IntC 0, IntC 0, IntC 50, IntC 10, IntC 100000000001, IntC 1],
                [IntC 1, IntC 0, IntC 1, IntC 50, IntC 20, IntC 100000000001, IntC 1]]\<rparr>
     \<lparr>columns = [''flag'', ''fluor''],
        rows = [[IntC 0, StrC ''BF_Position1''], [IntC 1, StrC ''YFP_Position1'']]\<rparr>
     = Inr \<lparr>columns = [''pos'', ''t_frame'', ''ucid'', ''cellID'', ''flag'', ''a_tot'',
                        ''f_tot_bf'', ''f_tot_yfp''],
            rows = [[IntC 1, IntC 0, IntC 100000000001, IntC 1, IntC 0, IntC 50,
                     IntC 10, IntC 20]]\<rparr>"
  by code_simp

subsection \<open>Tables without a frame column (C7)\<close>

lemma make_cols_chan_without_t_frame:
  assumes "''ucid'' \<in> set (columns df)" and "''t_frame'' \<notin> set (columns df)"
  shows "make_cols_chan df df_map = Inl (KeyError (StrC ''t_frame''))"
proof -
  from assms(1) obtain i where "column_index (columns df) ''ucid'' = Some i"
    using column_index_None [of "columns df" "''ucid''"] by auto
  moreover from assms(2) have "column_index (columns df) ''t_frame'' = None"
    by (simp add: column_index_None)
  ultimately have "traverse (col_pos df) [''ucid'', ''t_frame''] = Inl (KeyError (StrC ''t_frame''))"
    by (simp add: col_pos_def)
  then show ?thesis
    by (simp add: make_cols_chan_def pivot_def ebind_def)
qed

text \<open>
  C7. The comment in \<^verbatim>\<open>_make_cols_chan\<close> plans for tables without a \<^verbatim>\<open>t_frame\<close> column
  (\<^verbatim>\<open>idx = ['ucid', 't_frame'] if 't_frame' in df else idx = ['ucid']\<close>), but the function
  always indexes by \<^verbatim>\<open>t_frame\<close>: on this table, which has \<^verbatim>\<open>flag\<close> and \<^verbatim>\<open>ucid\<close> and no
  \<^verbatim>\<open>t_frame\<close>, it raises \<^verbatim>\<open>KeyError\<close>, as on every such table (lemma
  \<open>make_cols_chan_without_t_frame\<close>).
\<close>

theorem make_cols_chan_needs_t_frame:
  "make_cols_chan
     \<lparr>columns = [''cellID'', ''flag'', ''a_tot'', ''f_tot'', ''ucid'', ''pos''],
        rows = [[IntC 1, IntC 0, IntC 50, IntC 10, IntC 100000000001, IntC 1],
                [IntC 1, IntC 1, IntC 50, IntC 20, IntC 100000000001, IntC 1]]\<rparr>
     \<lparr>columns = [''flag'', ''fluor''],
        rows = [[IntC 0, StrC ''BF_Position1''], [IntC 1, StrC ''YFP_Position1'']]\<rparr>
     = Inl (KeyError (StrC ''t_frame''))"
  by code_simp

end
